theory Spec2Isabelle
  imports Main
begin

section \<open>Shallow embedding of the shell front-end (src/shell.c)\<close>

text \<open>
  C strings are modelled as \<^typ>\<open>string\<close> (the bytes before the terminating NUL);
  a possibly-NULL \<^verbatim>\<open>char*\<close> is a \<^typ>\<open>string option\<close>. Text written to a
  \<^verbatim>\<open>FILE*\<close> is returned by the model function, in the order it is written.
  The database engine is an external collaborator: its answers are parameters of the
  model, and each SQL text handed to it is appended to a log.
\<close>

subsection \<open>Characters, lengths and formatted output\<close>

abbreviation NUL :: char where "NUL \<equiv> CHR 0x00"
abbreviation TAB :: char where "TAB \<equiv> CHR 0x09"
abbreviation NL :: char where "NL \<equiv> CHR 0x0A"
abbreviation CR :: char where "CR \<equiv> CHR 0x0D"
abbreviation DQUOTE :: char where "DQUOTE \<equiv> CHR 0x22"
abbreviation SQUOTE :: char where "SQUOTE \<equiv> CHR 0x27"
abbreviation BACKSLASH :: char where "BACKSLASH \<equiv> CHR 0x5C"

text \<open>\<^verbatim>\<open>#define IsSpace(X) isspace((unsigned char)X)\<close>, in the C locale.\<close>

definition IsSpace :: "char \<Rightarrow> bool" where
  "IsSpace c = (c = CHR '' '' \<or> (9 \<le> (of_char c :: nat) \<and> (of_char c :: nat) \<le> 13))"

text \<open>\<^verbatim>\<open>return 0x3fffffff & (int)(z2 - z);\<close>\<close>

definition strlen30 :: "string \<Rightarrow> int" where
  "strlen30 z = int (length z) mod 2 ^ 30"

text \<open>
  The \<^verbatim>\<open>%s\<close> conversion of printf with a field width and a precision
  (\<^verbatim>\<open>%-*.*s\<close> is \<open>printf_s True w prec\<close>, \<^verbatim>\<open>%*.*s\<close> is \<open>printf_s False w prec\<close>):
  a negative width means left justification with the absolute value, a negative
  precision means no precision. A NULL argument is printed as glibc prints it.
\<close>

definition printf_null :: "int \<Rightarrow> string" where
  "printf_null prec = (if prec < 0 \<or> 6 \<le> prec then ''(null)'' else [])"

definition printf_s :: "bool \<Rightarrow> int \<Rightarrow> int \<Rightarrow> string option \<Rightarrow> string" where
  "printf_s left w prec arg =
     (let s = (case arg of None \<Rightarrow> printf_null prec | Some z \<Rightarrow> z);
          t = (if prec < 0 then s else take (nat prec) s);
          pad = replicate (nat \<bar>w\<bar> - length t) (CHR '' '')
      in if left \<or> w < 0 then t @ pad else pad @ t)"

text \<open>Plain \<^verbatim>\<open>%s\<close>.\<close>

definition fmt_s :: "string option \<Rightarrow> string" where
  "fmt_s arg = (case arg of None \<Rightarrow> printf_null (- 1) | Some z \<Rightarrow> z)"

text \<open>Reading entry \<open>i\<close> of a C array of \<open>char*\<close>; the arrays handed to the callbacks hold
  \<open>nArg\<close> entries, which is the length of the list.\<close>

definition arr_get :: "string option list \<Rightarrow> nat \<Rightarrow> string option" where
  "arr_get a i = (if i < length a then a ! i else None)"

subsection \<open>Engine result codes\<close>

text \<open>Modelled from the spec: the result codes of the external engine (its header is
  not part of src/); the values are the engine's published ones.\<close>

definition SQLITE_OK :: int where "SQLITE_OK = 0"
definition SQLITE_ABORT :: int where "SQLITE_ABORT = 4"
definition SQLITE_NOMEM :: int where "SQLITE_NOMEM = 7"
definition SQLITE_ROW :: int where "SQLITE_ROW = 100"
definition SQLITE_DONE :: int where "SQLITE_DONE = 101"
definition SQLITE_NULL :: int where "SQLITE_NULL = 5"

subsection \<open>The session: \<^verbatim>\<open>struct callback_data\<close>\<close>

datatype mode = MODE_Line | MODE_Column | MODE_List | MODE_Semi | MODE_Html
  | MODE_Insert | MODE_Tcl | MODE_Csv | MODE_Explain

datatype FILE = Stdout | Stderr | Opened string | Piped string

record previous_mode_data =
  pm_valid :: int
  pm_mode :: mode
  pm_showHeader :: int
  pm_colWidth :: "int list"

record callback_data =
  db :: "nat option"
  echoOn :: int
  statsOn :: int
  cnt :: int
  out :: "FILE option"
  traceOut :: "FILE option"
  nErr :: int
  mode :: mode
  writableSchema :: int
  showHeader :: int
  zDestTable :: "string option"
  separator :: string
  colWidth :: "int list"
  actualWidth :: "int list"
  nullvalue :: string
  explainPrev :: previous_mode_data
  outfile :: string
  zDbFilename :: "string option"
  zVfs :: "string option"
  pStmt :: "nat option"
  pLog :: "FILE option"

text \<open>\<^verbatim>\<open>main_init\<close>: everything zero, then list mode and the separator \<open>|\<close>.
  The two width tables have 100 entries.\<close>

definition main_init :: callback_data where
  "main_init = \<lparr> db = None, echoOn = 0, statsOn = 0, cnt = 0, out = None, traceOut = None,
     nErr = 0, mode = MODE_List, writableSchema = 0, showHeader = 0, zDestTable = None,
     separator = ''|'', colWidth = replicate 100 0, actualWidth = replicate 100 0,
     nullvalue = [],
     explainPrev = \<lparr> pm_valid = 0, pm_mode = MODE_Line, pm_showHeader = 0,
                     pm_colWidth = replicate 100 0 \<rparr>,
     outfile = [], zDbFilename = None, zVfs = None, pStmt = None, pLog = None \<rparr>"

subsection \<open>CSV rendering: \<^verbatim>\<open>needCsvQuote\<close> and \<^verbatim>\<open>output_csv\<close>\<close>

definition needCsvQuote :: "nat list" where
  "needCsvQuote =
  [1, 1, 1, 1, 1, 1, 1, 1] @ [1, 1, 1, 1, 1, 1, 1, 1] @
  [1, 1, 1, 1, 1, 1, 1, 1] @ [1, 1, 1, 1, 1, 1, 1, 1] @
  [1, 0, 1, 0, 0, 0, 0, 1] @ [0, 0, 0, 0, 0, 0, 0, 0] @
  [0, 0, 0, 0, 0, 0, 0, 0] @ [0, 0, 0, 0, 0, 0, 0, 0] @
  [0, 0, 0, 0, 0, 0, 0, 0] @ [0, 0, 0, 0, 0, 0, 0, 0] @
  [0, 0, 0, 0, 0, 0, 0, 0] @ [0, 0, 0, 0, 0, 0, 0, 0] @
  [0, 0, 0, 0, 0, 0, 0, 0] @ [0, 0, 0, 0, 0, 0, 0, 0] @
  [0, 0, 0, 0, 0, 0, 0, 0] @ [0, 0, 0, 0, 0, 0, 0, 1] @
  [1, 1, 1, 1, 1, 1, 1, 1] @ [1, 1, 1, 1, 1, 1, 1, 1] @
  [1, 1, 1, 1, 1, 1, 1, 1] @ [1, 1, 1, 1, 1, 1, 1, 1] @
  [1, 1, 1, 1, 1, 1, 1, 1] @ [1, 1, 1, 1, 1, 1, 1, 1] @
  [1, 1, 1, 1, 1, 1, 1, 1] @ [1, 1, 1, 1, 1, 1, 1, 1] @
  [1, 1, 1, 1, 1, 1, 1, 1] @ [1, 1, 1, 1, 1, 1, 1, 1] @
  [1, 1, 1, 1, 1, 1, 1, 1] @ [1, 1, 1, 1, 1, 1, 1, 1] @
  [1, 1, 1, 1, 1, 1, 1, 1] @ [1, 1, 1, 1, 1, 1, 1, 1] @
  [1, 1, 1, 1, 1, 1, 1, 1] @ [1, 1, 1, 1, 1, 1, 1, 1]"

text \<open>\<^verbatim>\<open>p->separator[0]\<close>: the first byte of the separator, the terminator when it is empty.\<close>

definition first_byte :: "string \<Rightarrow> char" where
  "first_byte s = (case s of [] \<Rightarrow> NUL | c # _ \<Rightarrow> c)"

text \<open>\<^verbatim>\<open>memcmp(z, sep, n)==0\<close> on NUL-terminated strings, \<open>n\<close> being the length of \<open>sep\<close>:
  when \<open>z\<close> is shorter than \<open>n\<close> its terminator differs from the byte of \<open>sep\<close> there.\<close>

definition memcmp_eq :: "string \<Rightarrow> string \<Rightarrow> int \<Rightarrow> bool" where
  "memcmp_eq z sep n = (take (nat n) z = take (nat n) sep)"

text \<open>The first loop of \<^verbatim>\<open>output_csv\<close>: \<open>rest\<close> is \<open>z\<close> from index \<open>i\<close> on; the result is the
  value of \<open>i\<close> when the loop is left.\<close>

fun csv_scan :: "string \<Rightarrow> string \<Rightarrow> string \<Rightarrow> nat \<Rightarrow> nat" where
  "csv_scan sep z [] i = i"
| "csv_scan sep z (c # rest) i =
     (if needCsvQuote ! (of_char c) \<noteq> 0
         \<or> (c = first_byte sep \<and> (strlen30 sep = 1 \<or> memcmp_eq z sep (strlen30 sep)))
      then 0
      else csv_scan sep z rest (i + 1))"

text \<open>The second loop: every double quote is written twice.\<close>

fun csv_double_quotes :: "string \<Rightarrow> string" where
  "csv_double_quotes [] = []"
| "csv_double_quotes (c # rest) =
     (if c = DQUOTE then [DQUOTE, c] else [c]) @ csv_double_quotes rest"

definition output_csv :: "callback_data \<Rightarrow> string option \<Rightarrow> bool \<Rightarrow> string" where
  "output_csv p z bSep =
     (case z of
        None \<Rightarrow> nullvalue p
      | Some z \<Rightarrow>
          (if csv_scan (separator p) z z 0 = 0
           then [DQUOTE] @ csv_double_quotes z @ [DQUOTE]
           else z))
     @ (if bSep then separator p else [])"

subsection \<open>Column and explain modes of \<^verbatim>\<open>shell_callback\<close>\<close>

text \<open>\<^verbatim>\<open>ArraySize(p->colWidth)\<close> and \<^verbatim>\<open>ArraySize(p->actualWidth)\<close>.\<close>

definition ArraySize_width :: nat where
  "ArraySize_width = 100"

definition dashes :: string where
  "dashes = replicate 35 (CHR ''-'') @ replicate 58 (CHR ''-'')"

text \<open>The cell terminator \<^verbatim>\<open>i==nArg-1 ? "\n" : "  "\<close>.\<close>

definition cell_end :: "nat \<Rightarrow> nat \<Rightarrow> string" where
  "cell_end nArg i = (if int i = int nArg - 1 then [NL] else ''  '')"

text \<open>The width chosen for column \<open>i\<close> when the first row arrives.\<close>

definition first_row_width ::
  "callback_data \<Rightarrow> string option list option \<Rightarrow> string option list \<Rightarrow> nat \<Rightarrow> int" where
  "first_row_width p azArg azCol i =
     (let w = (if i < ArraySize_width then colWidth p ! i else 0) in
      if w = 0 then
        (let w1 = strlen30 (case arr_get azCol i of None \<Rightarrow> [] | Some c \<Rightarrow> c);
             w2 = (if w1 < 10 then 10 else w1);
             n = strlen30 (case azArg of None \<Rightarrow> nullvalue p
                   | Some a \<Rightarrow> (case arr_get a i of None \<Rightarrow> nullvalue p | Some v \<Rightarrow> v))
         in if w2 < n then n else w2)
      else w)"

text \<open>The first loop (\<^verbatim>\<open>p->cnt++==0\<close>): store the width, print the header cell. \<open>is\<close> are the
  indices still to visit.\<close>

fun header_loop ::
  "string option list option \<Rightarrow> string option list \<Rightarrow> nat list \<Rightarrow> callback_data \<Rightarrow>
   callback_data \<times> string" where
  "header_loop azArg azCol [] p = (p, [])"
| "header_loop azArg azCol (i # is) p =
     (let w = first_row_width p azArg azCol i;
          p1 = (if i < ArraySize_width then p\<lparr>actualWidth := (actualWidth p)[i := w]\<rparr> else p);
          txt = (if showHeader p \<noteq> 0
                 then (if w < 0 then printf_s False (- w) (- w) (arr_get azCol i)
                       else printf_s True w w (arr_get azCol i)) @ cell_end (length azCol) i
                 else []);
          (p2, later) = header_loop azArg azCol is p1
      in (p2, txt @ later))"

text \<open>The width of the rule under the header, and the width of a data cell.\<close>

definition rule_width :: "callback_data \<Rightarrow> nat \<Rightarrow> int" where
  "rule_width p i =
     (if i < ArraySize_width
      then (let w = actualWidth p ! i in if w < 0 then - w else w)
      else 10)"

definition data_width :: "callback_data \<Rightarrow> string option list \<Rightarrow> nat \<Rightarrow> int" where
  "data_width p azArg i =
     (let w = (if i < ArraySize_width then actualWidth p ! i else 10) in
      case arr_get azArg i of
        None \<Rightarrow> w
      | Some v \<Rightarrow> (if mode p = MODE_Explain \<and> strlen30 v > w then strlen30 v else w))"

definition rule_cell :: "callback_data \<Rightarrow> nat \<Rightarrow> nat \<Rightarrow> string" where
  "rule_cell p nArg i =
     printf_s True (rule_width p i) (rule_width p i) (Some dashes) @ cell_end nArg i"

definition data_cell :: "callback_data \<Rightarrow> nat \<Rightarrow> string option list \<Rightarrow> nat \<Rightarrow> string" where
  "data_cell p nArg azArg i =
     (let w = data_width p azArg i;
          v = (case arr_get azArg i of None \<Rightarrow> nullvalue p | Some v \<Rightarrow> v)
      in (if w < 0 then printf_s False (- w) (- w) (Some v) else printf_s True w w (Some v))
         @ cell_end nArg i)"

text \<open>\<^verbatim>\<open>case MODE_Explain: case MODE_Column:\<close> of \<^verbatim>\<open>shell_callback\<close>. \<open>nArg\<close> is the length
  of \<open>azCol\<close>; the function returns the session and the text written to \<^verbatim>\<open>p->out\<close>.\<close>

definition shell_callback_column ::
  "callback_data \<Rightarrow> string option list option \<Rightarrow> string option list \<Rightarrow> callback_data \<times> string" where
  "shell_callback_column p azArg azCol =
     (let nArg = length azCol;
          p0 = p\<lparr>cnt := cnt p + 1\<rparr>;
          (p1, head) =
            (if cnt p = 0 then
               (let (q, h) = header_loop azArg azCol [0..<nArg] p0
                in (q, h @ (if showHeader q \<noteq> 0
                            then concat (map (rule_cell q nArg) [0..<nArg]) else [])))
             else (p0, []))
      in case azArg of
           None \<Rightarrow> (p1, head)
         | Some a \<Rightarrow> (p1, head @ concat (map (data_cell p1 nArg a) [0..<nArg])))"

text \<open>\<^verbatim>\<open>case MODE_Csv:\<close> of \<^verbatim>\<open>shell_callback\<close>.\<close>

definition shell_callback_csv ::
  "callback_data \<Rightarrow> string option list option \<Rightarrow> string option list \<Rightarrow> callback_data \<times> string" where
  "shell_callback_csv p azArg azCol =
     (let nArg = length azCol;
          p1 = p\<lparr>cnt := cnt p + 1\<rparr>;
          head = (if cnt p = 0 \<and> showHeader p \<noteq> 0
                  then concat (map (\<lambda>i. output_csv p1
                          (Some (case arr_get azCol i of None \<Rightarrow> [] | Some c \<Rightarrow> c))
                          (int i < int nArg - 1)) [0..<nArg]) @ [NL]
                  else [])
      in case azArg of
           None \<Rightarrow> (p1, head)
         | Some a \<Rightarrow> (p1, head @ concat (map (\<lambda>i. output_csv p1 (arr_get a i)
                          (int i < int nArg - 1)) [0..<nArg]) @ [NL]))"

subsection \<open>The engine as seen by the dump engine and the execution pipeline\<close>

text \<open>
  A result row is the list of its columns, each with its text (NULL is \<open>None\<close>) and its
  type code. A prepared statement carries what the engine will answer: the results of
  the successive calls of \<^verbatim>\<open>Step\<close> (a result code and, with \<open>SQLITE_ROW\<close>, the row), and
  the result of \<^verbatim>\<open>Finalize\<close>. After the last scripted step \<^verbatim>\<open>Step\<close> answers
  \<open>SQLITE_DONE\<close>. The engine's answers may depend on everything it was asked before: each
  entry point takes the log of the calls made so far.
\<close>

text \<open>The calls made on the engine, in the order they are made. The dump engine and
  the execution pipeline log the SQL texts they hand to \<^verbatim>\<open>sqlite3_exec\<close> (\<open>Db_exec\<close>) and to
  \<^verbatim>\<open>sqlite3_prepare\<close> (\<open>Db_prepare\<close>, or \<open>Db_prepare_NULL\<close> for a NULL text); \<^verbatim>\<open>.import\<close> logs
  every call.\<close>

datatype db_call = Db_exec string | Db_prepare string | Db_finalize
  | Db_bind_text nat string | Db_step | Db_reset | Db_prepare_NULL

type_synonym row = "(string option \<times> int) list"

record sqlite3_stmt =
  stmt_handle :: nat
  sqlite3_sql :: "string option"
  explain_text :: "string option"
  sqlite3_column_count :: nat
  columnName :: "string option list"
  Step :: "(int \<times> row) list"
  Finalize :: int

record engine =
  sqlite3_prepare :: "db_call list \<Rightarrow> string \<Rightarrow> int \<times> sqlite3_stmt option"
  Prepare_v2 :: "db_call list \<Rightarrow> string \<Rightarrow> int \<times> sqlite3_stmt option \<times> nat"
  sqlite3_exec :: "db_call list \<Rightarrow> string \<Rightarrow> string list list \<times> int \<times> string option"
  sqlite3_errmsg :: "db_call list \<Rightarrow> string"
  sqlite3_malloc_ok :: "db_call list \<Rightarrow> bool"
  stats_text :: "db_call list \<Rightarrow> string"

definition sqlite3_column_text :: "row \<Rightarrow> nat \<Rightarrow> string option" where
  "sqlite3_column_text r i = (if i < length r then fst (r ! i) else None)"

definition sqlite3_column_type :: "row \<Rightarrow> nat \<Rightarrow> int" where
  "sqlite3_column_type r i = (if i < length r then snd (r ! i) else SQLITE_NULL)"





subsection \<open>\<^verbatim>\<open>appendText\<close>\<close>

fun append_quoted :: "char \<Rightarrow> string \<Rightarrow> string" where
  "append_quoted q [] = []"
| "append_quoted q (c # rest) = (if c = q then [c, q] else [c]) @ append_quoted q rest"




definition prepare_call :: "string option \<Rightarrow> db_call" where
  "prepare_call z = (case z of None \<Rightarrow> Db_prepare_NULL | Some t \<Rightarrow> Db_prepare t)"

subsection \<open>\<^verbatim>\<open>run_table_dump_query\<close>\<close>

text \<open>\<^verbatim>\<open>while( z[0] && (z[0]!='-' || z[1]!='-') ) z++;\<close>: the result is what \<open>z\<close> points to
  when the loop is left.\<close>

fun skip_to_dashes :: "string \<Rightarrow> string" where
  "skip_to_dashes [] = []"
| "skip_to_dashes (c # rest) =
     (if c \<noteq> CHR ''-'' \<or> first_byte rest \<noteq> CHR ''-'' then skip_to_dashes rest else c # rest)"

text \<open>The text written for one row with \<open>nResult\<close> columns.\<close>

definition row_text :: "nat \<Rightarrow> row \<Rightarrow> string" where
  "row_text nResult r =
     fmt_s (sqlite3_column_text r 0)
     @ concat (map (\<lambda>i. '','' @ fmt_s (sqlite3_column_text r i)) [1..<nResult])"

definition dump_row :: "nat \<Rightarrow> row \<Rightarrow> string" where
  "dump_row nResult r =
     (let z = sqlite3_column_text r 0 in
      row_text nResult r
      @ (if skip_to_dashes (case z of None \<Rightarrow> [] | Some t \<Rightarrow> t) \<noteq> []
         then [NL] @ '';'' @ [NL]
         else '';'' @ [NL]))"




text \<open>\<^verbatim>\<open>while( rc==SQLITE_ROW )\<close> over the answers of \<^verbatim>\<open>Step\<close>.\<close>

fun dump_rows :: "nat \<Rightarrow> string option \<Rightarrow> (int \<times> row) list \<Rightarrow> string" where
  "dump_rows nResult zFirstRow [] = []"
| "dump_rows nResult zFirstRow ((rc, r) # rest) =
     (if rc = SQLITE_ROW
      then (case zFirstRow of None \<Rightarrow> [] | Some t \<Rightarrow> t) @ dump_row nResult r
           @ dump_rows nResult None rest
      else [])"



subsection \<open>\<^verbatim>\<open>dump_callback\<close>\<close>







subsection \<open>\<^verbatim>\<open>run_schema_dump_query\<close>\<close>



text \<open>\<^verbatim>\<open>sqlite3_snprintf(n, buf, ...)\<close> keeps at most \<open>n - 1\<close> bytes of the formatted text.\<close>

definition sqlite3_snprintf :: "int \<Rightarrow> string \<Rightarrow> string" where
  "sqlite3_snprintf n t = take (nat (n - 1)) t"



subsection \<open>The execution pipeline: \<^verbatim>\<open>shell_exec\<close>\<close>

text \<open>The row callback \<^verbatim>\<open>xCallback(pArg, nCol, azVals, azCols, aiTypes)\<close>: it returns its
  result, the session it was handed (possibly changed) and the text it wrote.\<close>

type_synonym callback =
  "callback_data option \<Rightarrow> string option list \<Rightarrow> string option list \<Rightarrow> int list
   \<Rightarrow> int \<times> callback_data option \<times> string"

record exec_state =
  ex_rc :: int
  ex_pArg :: "callback_data option"
  ex_log :: "db_call list"
  ex_out :: string
  ex_errmsg :: "string option"

text \<open>The \<^verbatim>\<open>for\<close> loop that fetches the values of a row leaves with \<open>SQLITE_NOMEM\<close> when a
  text is NULL although the type of the column is not.\<close>

definition extract_fails :: "nat \<Rightarrow> row \<Rightarrow> bool" where
  "extract_fails nCol r =
     list_ex (\<lambda>i. sqlite3_column_text r i = None \<and> sqlite3_column_type r i \<noteq> SQLITE_NULL)
       [0..<nCol]"

text \<open>The \<^verbatim>\<open>do ... while( SQLITE_ROW == rc )\<close> loop with a callback; the head of the list
  is the answer of the latest \<^verbatim>\<open>Step\<close>.\<close>

fun exec_row_loop ::
  "callback \<Rightarrow> string option list \<Rightarrow> nat \<Rightarrow> (int \<times> row) list \<Rightarrow> callback_data option
   \<Rightarrow> int \<times> callback_data option \<times> string" where
  "exec_row_loop xCallback azCols nCol [] pArg = (SQLITE_DONE, pArg, [])"
| "exec_row_loop xCallback azCols nCol ((rc, r) # rest) pArg =
     (if rc \<noteq> SQLITE_ROW then (rc, pArg, [])
      else if extract_fails nCol r then (SQLITE_NOMEM, pArg, [])
      else
        (let (stop, pArg1, t) =
               xCallback pArg (map (sqlite3_column_text r) [0..<nCol]) azCols
                 (map (sqlite3_column_type r) [0..<nCol])
         in if stop \<noteq> 0 then (SQLITE_ABORT, pArg1, t)
            else (let (rc2, pArg2, t2) = exec_row_loop xCallback azCols nCol rest pArg1
                  in (rc2, pArg2, t @ t2))))"

text \<open>\<^verbatim>\<open>do{ rc = pStmt.Step() } while( rc == SQLITE_ROW );\<close>\<close>

fun skip_rows :: "(int \<times> row) list \<Rightarrow> int" where
  "skip_rows [] = SQLITE_DONE"
| "skip_rows ((rc, r) # rest) = (if rc = SQLITE_ROW then skip_rows rest else rc)"

text \<open>From the first \<^verbatim>\<open>Step\<close> to the end of stepping: the result code recorded by stepping,
  the session and the text written by the callback.\<close>

definition step_phase ::
  "engine \<Rightarrow> db_call list \<Rightarrow> callback option \<Rightarrow> sqlite3_stmt \<Rightarrow> callback_data option
   \<Rightarrow> int \<times> callback_data option \<times> string" where
  "step_phase e log xCallback stmt pArg =
     (case Step stmt of
        [] \<Rightarrow> (SQLITE_DONE, pArg, [])
      | (rc, r) # rest \<Rightarrow>
          (if SQLITE_ROW = rc then
             (case xCallback of
                Some f \<Rightarrow>
                  (let nCol = sqlite3_column_count stmt in
                   if \<not> sqlite3_malloc_ok e log then (SQLITE_NOMEM, pArg, [])
                   else exec_row_loop f (map (arr_get (columnName stmt)) [0..<nCol]) nCol
                          (Step stmt) pArg)
              | None \<Rightarrow> (skip_rows rest, pArg, []))
           else (rc, pArg, [])))"

text \<open>\<^verbatim>\<open>display_stats\<close> writes the engine's counters when the session has an output sink.\<close>

definition display_stats :: "engine \<Rightarrow> db_call list \<Rightarrow> callback_data option \<Rightarrow> string" where
  "display_stats e log pArg =
     (case pArg of None \<Rightarrow> []
      | Some p \<Rightarrow> (if out p \<noteq> None then stats_text e log else []))"

text \<open>One statement, from "save off the prepared statement handle" to "clear saved stmt
  handle". \<open>st\<close> is the state after the successful prepare.\<close>

definition exec_statement ::
  "engine \<Rightarrow> callback option \<Rightarrow> bool \<Rightarrow> string \<Rightarrow> sqlite3_stmt \<Rightarrow> exec_state \<Rightarrow> exec_state" where
  "exec_statement e xCallback pzErrMsg zSql stmt st =
     (let log = ex_log st;
          pArg1 = map_option (\<lambda>p. p\<lparr>pStmt := Some (stmt_handle stmt), cnt := 0\<rparr>) (ex_pArg st);
          echo = (case pArg1 of None \<Rightarrow> []
                  | Some p \<Rightarrow> (if echoOn p \<noteq> 0
                      then (case sqlite3_sql stmt of None \<Rightarrow> zSql | Some t \<Rightarrow> t) @ [NL]
                      else []));
          expl = (case pArg1 of None \<Rightarrow> []
                  | Some p \<Rightarrow> (if mode p = MODE_Explain
                      then (case explain_text stmt of None \<Rightarrow> [] | Some t \<Rightarrow> t) else []));
          (rc, pArg2, rows) = step_phase e log xCallback stmt pArg1;
          stats = (case pArg2 of None \<Rightarrow> []
                   | Some p \<Rightarrow> (if statsOn p \<noteq> 0 then display_stats e log pArg2 else []));
          rc2 = Finalize stmt;
          rc' = (if rc \<noteq> SQLITE_NOMEM then rc2 else rc)
      in st\<lparr>ex_rc := rc',
            ex_pArg := map_option (\<lambda>p. p\<lparr>pStmt := None\<rparr>) pArg2,
            ex_out := ex_out st @ echo @ expl @ rows @ stats,
            ex_errmsg := (if rc' \<noteq> SQLITE_OK \<and> pzErrMsg
                          then Some (sqlite3_errmsg e log) else ex_errmsg st)\<rparr>)"

text \<open>One turn of \<^verbatim>\<open>while( zSql[0] && (SQLITE_OK == rc) )\<close>: the text that \<open>zSql\<close> points to
  afterwards and the new state. \<^verbatim>\<open>Prepare_v2\<close> answers the result code, the statement (none
  for a comment or white space) and how far the statement reaches: \<open>zLeftover\<close> starts
  at least one byte after \<open>zSql\<close>.\<close>

definition shell_exec_step ::
  "engine \<Rightarrow> callback option \<Rightarrow> bool \<Rightarrow> string \<Rightarrow> exec_state \<Rightarrow> string \<times> exec_state" where
  "shell_exec_step e xCallback pzErrMsg zSql st =
     (let (rc, pStmt, k) = Prepare_v2 e (ex_log st) zSql;
          zLeftover = drop (Suc k) zSql;
          st1 = st\<lparr>ex_rc := rc, ex_log := ex_log st @ [Db_prepare zSql]\<rparr>
      in if SQLITE_OK \<noteq> rc
         then (zSql, if pzErrMsg then st1\<lparr>ex_errmsg := Some (sqlite3_errmsg e (ex_log st1))\<rparr>
                     else st1)
         else
           (case pStmt of
              None \<Rightarrow> (dropWhile IsSpace zLeftover, st1)
            | Some stmt \<Rightarrow>
                (let st2 = exec_statement e xCallback pzErrMsg zSql stmt st1
                 in (if ex_rc st2 = SQLITE_OK then dropWhile IsSpace zLeftover else zSql, st2))))"

function shell_exec_loop ::
  "engine \<Rightarrow> callback option \<Rightarrow> bool \<Rightarrow> string \<Rightarrow> exec_state \<Rightarrow> exec_state" where
  "shell_exec_loop e xCallback pzErrMsg zSql st =
     (if zSql \<noteq> [] \<and> SQLITE_OK = ex_rc st
      then (case shell_exec_step e xCallback pzErrMsg zSql st of
              (zSql', st') \<Rightarrow> shell_exec_loop e xCallback pzErrMsg zSql' st')
      else st)"
  by pat_completeness auto
termination
proof -
  have shorter: "length (dropWhile IsSpace (drop (Suc k) zSql)) < length zSql"
    if "zSql \<noteq> []" for zSql :: string and k :: nat
  proof -
    have "length (dropWhile IsSpace (drop (Suc k) zSql)) \<le> length (drop (Suc k) zSql)"
      by (rule length_dropWhile_le)
    also have "\<dots> < length zSql" using that by (cases zSql) auto
    finally show ?thesis .
  qed
  show ?thesis
    by (relation "measure (\<lambda>(e, xCallback, pzErrMsg, zSql, st).
            if ex_rc st = SQLITE_OK then Suc (length zSql) else 0)")
       (auto simp: shell_exec_step_def Let_def shorter
             split: prod.splits option.splits if_splits)
qed

declare shell_exec_loop.simps [simp del]

definition shell_exec ::
  "engine \<Rightarrow> db_call list \<Rightarrow> string \<Rightarrow> callback option \<Rightarrow> callback_data option \<Rightarrow> bool
   \<Rightarrow> exec_state" where
  "shell_exec e log zSql xCallback pArg pzErrMsg =
     shell_exec_loop e xCallback pzErrMsg zSql
       \<lparr>ex_rc = SQLITE_OK, ex_pArg = pArg, ex_log = log, ex_out = [], ex_errmsg = None\<rparr>"

subsection \<open>The line buffer of a meta-command\<close>

text \<open>
  \<^verbatim>\<open>do_meta_command\<close> cuts its input line into tokens in place: it overwrites delimiters
  with NUL and lets \<^verbatim>\<open>resolve_backslashes\<close> rewrite each token where it stands. The buffer
  is therefore modelled as the list of its bytes, terminator included, and \<open>azArg\<close> as the
  list of the offsets stored so far. Reading outside the buffer and storing outside
  \<^verbatim>\<open>azArg[50]\<close> are the two faults a run can end in.
\<close>

datatype fault = Overread | TokenOverflow

definition rd :: "char list \<Rightarrow> nat \<Rightarrow> fault + char" where
  "rd buf i = (if i < length buf then Inr (buf ! i) else Inl Overread)"

text \<open>The C string that starts at offset \<open>z\<close> of the buffer.\<close>

definition cstr :: "char list \<Rightarrow> nat \<Rightarrow> string" where
  "cstr buf z = takeWhile (\<lambda>c. c \<noteq> NUL) (drop z buf)"

text \<open>\<^verbatim>\<open>while( cond(zLine[i]) ){ i++; }\<close>: the index where the loop stops.\<close>

function scan_while :: "char list \<Rightarrow> (char \<Rightarrow> bool) \<Rightarrow> nat \<Rightarrow> fault + nat" where
  "scan_while buf cond i =
     (case rd buf i of
        Inl f \<Rightarrow> Inl f
      | Inr c \<Rightarrow> (if cond c then scan_while buf cond (i + 1) else Inr i))"
  by pat_completeness auto
termination
  by (relation "measure (\<lambda>(buf, cond, i). length buf - i)")
     (auto simp: rd_def split: if_splits)

declare scan_while.simps [simp del]

subsection \<open>\<^verbatim>\<open>resolve_backslashes\<close>\<close>

definition is_octal :: "char \<Rightarrow> bool" where
  "is_octal c = (48 \<le> (of_char c :: nat) \<and> (of_char c :: nat) \<le> 55)"

text \<open>
  What follows a backslash: \<open>i\<close> is the index after \<^verbatim>\<open>c = z[++i]\<close>. The result is the byte
  to store (a \<^verbatim>\<open>char\<close>, so the value of three octal digits is cut to eight bits) and
  the index of the last byte consumed.
\<close>

definition rb_escape :: "char list \<Rightarrow> nat \<Rightarrow> fault + (char \<times> nat)" where
  "rb_escape buf i =
     (case rd buf i of
        Inl f \<Rightarrow> Inl f
      | Inr c \<Rightarrow>
          if c = CHR ''n'' then Inr (NL, i)
          else if c = CHR ''t'' then Inr (TAB, i)
          else if c = CHR ''r'' then Inr (CR, i)
          else if is_octal c then
            (let v = (of_char c :: nat) - 48 in
             case rd buf (i + 1) of
               Inl f \<Rightarrow> Inl f
             | Inr d \<Rightarrow>
                 if is_octal d then
                   (let v2 = v * 8 + (of_char d :: nat) - 48 in
                    case rd buf (i + 2) of
                      Inl f \<Rightarrow> Inl f
                    | Inr d3 \<Rightarrow>
                        if is_octal d3
                        then Inr (char_of (v2 * 8 + (of_char d3 :: nat) - 48), i + 2)
                        else Inr (char_of v2, i + 1))
                 else Inr (char_of v, i))
          else Inr (c, i))"

text \<open>\<^verbatim>\<open>for(i=j=0; (c = z[i])!=0; i++, j++)\<close>, with \<open>i\<close> and \<open>j\<close> as offsets into the buffer.\<close>

function rb_loop :: "char list \<Rightarrow> nat \<Rightarrow> nat \<Rightarrow> fault + char list" where
  "rb_loop buf i j =
     (case rd buf i of
        Inl f \<Rightarrow> Inl f
      | Inr c \<Rightarrow>
          if c = NUL then Inr (buf[j := NUL])
          else if c = BACKSLASH then
            (case rb_escape buf (i + 1) of
               Inl f \<Rightarrow> Inl f
             | Inr (c', i') \<Rightarrow> rb_loop (buf[j := c']) (i' + 1) (j + 1))
          else rb_loop (buf[j := c]) (i + 1) (j + 1))"
  by pat_completeness auto
termination
  by (relation "measure (\<lambda>(buf, i, j). length buf - i)")
     (auto simp: rd_def rb_escape_def Let_def split: if_splits sum.splits)

declare rb_loop.simps [simp del]

definition resolve_backslashes :: "char list \<Rightarrow> nat \<Rightarrow> fault + char list" where
  "resolve_backslashes buf z = rb_loop buf z z"

subsection \<open>The tokenizer of \<^verbatim>\<open>do_meta_command\<close>\<close>

text \<open>\<^verbatim>\<open>ArraySize(azArg)\<close>.\<close>

definition ArraySize_azArg :: nat where
  "ArraySize_azArg = 50"

text \<open>\<^verbatim>\<open>azArg[nArg++] = &zLine[i]\<close>, \<open>nArg\<close> being the number of offsets stored.\<close>

definition azArg_store :: "nat list \<Rightarrow> nat \<Rightarrow> fault + nat list" where
  "azArg_store azArg z =
     (if length azArg < ArraySize_azArg then Inr (azArg @ [z]) else Inl TokenOverflow)"

text \<open>One token, from the white space before it to the call of \<^verbatim>\<open>resolve_backslashes\<close>:
  the buffer, the index \<open>i\<close> and \<open>azArg\<close> afterwards; \<open>None\<close> stands for the \<^verbatim>\<open>break\<close> at
  the end of the line.\<close>

definition next_token ::
  "char list \<Rightarrow> nat \<Rightarrow> nat list \<Rightarrow> fault + (char list \<times> nat \<times> nat list) option" where
  "next_token buf i azArg =
     (case scan_while buf IsSpace i of
        Inl f \<Rightarrow> Inl f
      | Inr i1 \<Rightarrow>
     (case rd buf i1 of
        Inl f \<Rightarrow> Inl f
      | Inr c \<Rightarrow>
          if c = NUL then Inr None
          else if c = SQUOTE \<or> c = DQUOTE then
            (let delim = c; z = i1 + 1 in
             case azArg_store azArg z of
               Inl f \<Rightarrow> Inl f
             | Inr azArg' \<Rightarrow>
             (case scan_while buf (\<lambda>x. x \<noteq> NUL \<and> x \<noteq> delim) z of
                Inl f \<Rightarrow> Inl f
              | Inr i2 \<Rightarrow>
                  (let (buf2, i3) = (if rd buf i2 = Inr delim then (buf[i2 := NUL], i2 + 1)
                                     else (buf, i2))
                   in if delim = DQUOTE
                      then (case resolve_backslashes buf2 z of
                              Inl f \<Rightarrow> Inl f
                            | Inr buf3 \<Rightarrow> Inr (Some (buf3, i3, azArg')))
                      else Inr (Some (buf2, i3, azArg')))))
          else
            (let z = i1 in
             case azArg_store azArg z of
               Inl f \<Rightarrow> Inl f
             | Inr azArg' \<Rightarrow>
             (case scan_while buf (\<lambda>x. x \<noteq> NUL \<and> \<not> IsSpace x) z of
                Inl f \<Rightarrow> Inl f
              | Inr i2 \<Rightarrow>
                  (let (buf2, i3) = (if rd buf i2 \<noteq> Inr NUL then (buf[i2 := NUL], i2 + 1)
                                     else (buf, i2))
                   in case resolve_backslashes buf2 z of
                        Inl f \<Rightarrow> Inl f
                      | Inr buf3 \<Rightarrow> Inr (Some (buf3, i3, azArg')))))))"

text \<open>\<^verbatim>\<open>while( zLine[i] && nArg<ArraySize(azArg) )\<close>: the buffer and \<open>azArg\<close> when the loop is
  left.\<close>

function tok_loop :: "char list \<Rightarrow> nat \<Rightarrow> nat list \<Rightarrow> fault + (char list \<times> nat list)" where
  "tok_loop buf i azArg =
     (case rd buf i of
        Inl f \<Rightarrow> Inl f
      | Inr c \<Rightarrow>
          if c \<noteq> NUL \<and> length azArg < ArraySize_azArg then
            (case next_token buf i azArg of
               Inl f \<Rightarrow> Inl f
             | Inr None \<Rightarrow> Inr (buf, azArg)
             | Inr (Some (buf', i', azArg')) \<Rightarrow> tok_loop buf' i' azArg')
          else Inr (buf, azArg))"
  by pat_completeness auto
termination
proof -
  have scan_ge: "i \<le> k" if "scan_while buf cond i = Inr k"
    for buf :: "char list" and cond i k
    using that
  proof (induction buf cond i rule: scan_while.induct)
    case (1 buf cond i)
    from "1.prems" "1.IH" show ?case
      by (subst (asm) scan_while.simps) (auto split: sum.splits if_splits)
  qed
  have rb_len: "length buf' = length buf" if "rb_loop buf i j = Inr buf'"
    for buf buf' :: "char list" and i j
    using that
  proof (induction buf i j rule: rb_loop.induct)
    case (1 buf i j)
    from "1.prems" "1.IH" show ?case
      by (subst (asm) rb_loop.simps) (auto split: sum.splits if_splits prod.splits)
  qed
  have advance: "length buf' = length buf \<and> i < i'"
    if "next_token buf i azArg = Inr (Some (buf', i', azArg'))" "rd buf i = Inr c" "c \<noteq> NUL"
    for buf buf' :: "char list" and i i' azArg azArg' c
    using that unfolding next_token_def resolve_backslashes_def
    apply (auto simp: Let_def dest!: scan_ge rb_len split: sum.splits if_splits prod.splits)
    apply (rule le_neq_trans)
     apply (erule (1) le_trans)
    apply auto
    done
  have less: "length buf' - i' < length buf - i"
    if "next_token buf i azArg = Inr (Some (buf', i', azArg'))" "rd buf i = Inr c" "c \<noteq> NUL"
    for buf buf' :: "char list" and i i' azArg azArg' c
  proof -
    from that have "length buf' = length buf" and "i < i'"
      using advance by blast+
    moreover from that(2) have "i < length buf"
      by (simp add: rd_def split: if_splits)
    ultimately show ?thesis by simp
  qed
  show ?thesis
  proof (relation "measure (\<lambda>(buf, i, azArg). length buf - i)")
    show "wf (measure (\<lambda>(buf, i, azArg). length buf - i))" by simp
  next
    fix buf :: "char list" and i :: nat and azArg :: "nat list" and c :: char
      and r :: "(char list \<times> nat \<times> nat list) option"
      and t :: "char list \<times> nat \<times> nat list"
      and buf' :: "char list" and u :: "nat \<times> nat list" and i' :: nat and azArg' :: "nat list"
    assume "rd buf i = Inr c" "c \<noteq> NUL \<and> length azArg < ArraySize_azArg"
      "next_token buf i azArg = Inr r" "r = Some t" "(buf', u) = t" "(i', azArg') = u"
    then have nt: "next_token buf i azArg = Inr (Some (buf', i', azArg'))" and nz: "c \<noteq> NUL"
      by auto
    from less [OF nt \<open>rd buf i = Inr c\<close> nz]
    show "((buf', i', azArg'), buf, i, azArg) \<in> measure (\<lambda>(buf, i, azArg). length buf - i)"
      by simp
  qed
qed

text \<open>The tokens of a meta-command line, as \<^verbatim>\<open>do_meta_command\<close> reads them after the loop.
  The buffer holds the line and its terminator; the scan starts at index 1, after the dot.\<close>

definition tokenize :: "string \<Rightarrow> fault + string list" where
  "tokenize zLine =
     (case tok_loop (zLine @ [NUL]) 1 [] of
        Inl f \<Rightarrow> Inl f
      | Inr (buf, azArg) \<Rightarrow> Inr (map (cstr buf) azArg))"

declare tok_loop.simps [simp del]

subsection \<open>Commands that end the process, and \<^verbatim>\<open>open_db\<close>\<close>

text \<open>A command either returns to its caller or ends the process with \<^verbatim>\<open>exit(n)\<close>.\<close>

datatype 'a outcome = Return 'a | Exit int

text \<open>\<open>sqlite3_open\<close> answers the handle of the opened database, or none when the open
  fails.\<close>

definition open_db :: "(string option \<Rightarrow> nat option) \<Rightarrow> callback_data \<Rightarrow> callback_data outcome" where
  "open_db sqlite3_open p =
     (if db p = None then
        (case sqlite3_open (zDbFilename p) of
           None \<Rightarrow> Exit 1
         | Some h \<Rightarrow> Return (p\<lparr>db := Some h\<rparr>))
      else Return p)"

subsection \<open>\<^verbatim>\<open>set_table_name\<close>\<close>

definition isalpha :: "char \<Rightarrow> bool" where
  "isalpha c = ((65 \<le> (of_char c :: nat) \<and> (of_char c :: nat) \<le> 90)
              \<or> (97 \<le> (of_char c :: nat) \<and> (of_char c :: nat) \<le> 122))"

definition isalnum :: "char \<Rightarrow> bool" where
  "isalnum c = (isalpha c \<or> (48 \<le> (of_char c :: nat) \<and> (of_char c :: nat) \<le> 57))"

text \<open>\<open>malloc_ok\<close> says whether \<^verbatim>\<open>malloc( n+1 )\<close> returns a buffer.\<close>

definition set_table_name :: "bool \<Rightarrow> callback_data \<Rightarrow> string option \<Rightarrow> callback_data outcome" where
  "set_table_name malloc_ok p zName =
     (let p1 = p\<lparr>zDestTable := None\<rparr> in
      case zName of
        None \<Rightarrow> Return p1
      | Some name \<Rightarrow>
          (let needQuote = ((\<not> isalpha (first_byte name) \<and> first_byte name \<noteq> CHR ''_'')
                            \<or> list_ex (\<lambda>c. \<not> isalnum c \<and> c \<noteq> CHR ''_'') name)
           in if \<not> malloc_ok then Exit 1
              else Return (p1\<lparr>zDestTable :=
                     Some (if needQuote then [SQUOTE] @ append_quoted SQUOTE name @ [SQUOTE]
                           else append_quoted SQUOTE name)\<rparr>)))"

subsection \<open>The \<^verbatim>\<open>.import\<close> command\<close>

text \<open>
  What the surroundings answer to \<^verbatim>\<open>.import\<close>: whether the three allocations succeed,
  the result code and column count of each \<^verbatim>\<open>sqlite3_prepare\<close> and the result code of each
  \<^verbatim>\<open>Reset\<close> (both may depend on the calls made so far), and for a file name the lines
  that the successive calls of \<^verbatim>\<open>local_getline(0, in, 1)\<close> return until it returns 0
  (none when \<^verbatim>\<open>fopen\<close> fails).
\<close>

record import_env =
  ie_sqlite3_open :: "string option \<Rightarrow> nat option"
  ie_mprintf_ok :: bool
  ie_malloc_zSql_ok :: bool
  ie_malloc_azCol_ok :: bool
  ie_prepare :: "db_call list \<Rightarrow> string \<Rightarrow> int \<times> nat"
  ie_fopen :: "string \<Rightarrow> string list option"
  ie_Reset :: "db_call list \<Rightarrow> int"

text \<open>
  The \<^verbatim>\<open>for(i=0, z=zLine; (c = *z)!=0; z++)\<close> loop that cuts a line into columns. \<open>z\<close> is
  the rest of the line, \<open>cols\<close> the columns already terminated, \<open>cur\<close> the text of the
  column that the latest \<open>azCol[i]\<close> points to (none once \<open>i\<close> has reached \<open>nCol\<close> and no
  pointer is stored any more). The result is \<open>i\<close> and the columns \<open>azCol[0..]\<close>.
\<close>

fun import_split ::
  "string \<Rightarrow> nat \<Rightarrow> bool \<Rightarrow> nat \<Rightarrow> string \<Rightarrow> string list \<Rightarrow> string option \<Rightarrow> nat \<times> string list" where
  "import_split sep nCol inQuote i [] cols cur =
     (i, case cur of None \<Rightarrow> cols | Some f \<Rightarrow> cols @ [f])"
| "import_split sep nCol inQuote i (c # rest) cols cur =
     (let inQuote' = (if c = DQUOTE then \<not> inQuote else inQuote) in
      if \<not> inQuote' \<and> c = first_byte sep \<and> take (nat (strlen30 sep)) (c # rest) = sep
      then
        (let cols' = (case cur of None \<Rightarrow> cols | Some f \<Rightarrow> cols @ [f]);
             i' = i + 1
         in if i' < nCol
            then import_split sep nCol inQuote' i' (drop (nat (strlen30 sep) - 1) rest) cols'
                   (Some [])
            else import_split sep nCol inQuote' i' rest cols' None)
      else import_split sep nCol inQuote' i rest cols (map_option (\<lambda>f. f @ [c]) cur))"

text \<open>The loop that removes the quotes of a column that starts with a double quote;
  the argument is the column after its first byte.\<close>

fun import_dequote :: "string \<Rightarrow> string" where
  "import_dequote [] = []"
| "import_dequote (c # rest) =
     (if c = DQUOTE
      then (case rest of [] \<Rightarrow> [] | d # rest' \<Rightarrow> d # import_dequote rest')
      else c # import_dequote rest)"

definition import_column :: "string \<Rightarrow> string" where
  "import_column f = (case f of [] \<Rightarrow> [] | c # body \<Rightarrow> if c = DQUOTE then import_dequote body else f)"

text \<open>The calls that insert one line whose columns are \<open>azCol\<close>: bind each column, step,
  reset.\<close>

definition import_row_calls :: "string list \<Rightarrow> db_call list" where
  "import_row_calls azCol =
     map (\<lambda>i. Db_bind_text (i + 1) (import_column (azCol ! i))) [0..<length azCol]
     @ [Db_step, Db_reset]"

text \<open>
  \<^verbatim>\<open>while( (zLine = local_getline(0, in, 1))!=0 )\<close>: the result code, \<open>zCommit\<close> and the
  calls made when the loop is left.
\<close>

fun import_lines ::
  "import_env \<Rightarrow> string \<Rightarrow> nat \<Rightarrow> string list \<Rightarrow> db_call list \<Rightarrow> int
   \<Rightarrow> int \<times> string \<times> db_call list" where
  "import_lines env sep nCol [] calls rc = (rc, ''COMMIT'', calls)"
| "import_lines env sep nCol (zLine # rest) calls rc =
     (let (i, azCol) = import_split sep nCol False 0 zLine [] (Some [])
      in if i + 1 \<noteq> nCol then (1, ''ROLLBACK'', calls)
         else
           (let calls1 = calls @ import_row_calls azCol;
                rc1 = ie_Reset env calls1
            in if rc1 \<noteq> SQLITE_OK then (1, ''ROLLBACK'', calls1)
               else import_lines env sep nCol rest calls1 rc1))"

text \<open>From \<^verbatim>\<open>sqlite3_exec(p->db, "BEGIN", 0, 0, 0)\<close> to \<^verbatim>\<open>sqlite3_exec(p->db, zCommit, 0, 0, 0)\<close>.\<close>

definition import_transaction ::
  "import_env \<Rightarrow> string \<Rightarrow> nat \<Rightarrow> string list \<Rightarrow> db_call list \<Rightarrow> int \<Rightarrow> int \<times> db_call list" where
  "import_transaction env sep nCol lines calls rc =
     (let (rc', zCommit, calls') = import_lines env sep nCol lines (calls @ [Db_exec ''BEGIN'']) rc
      in (rc', calls' @ [Db_finalize, Db_exec zCommit]))"

text \<open>The branch \<^verbatim>\<open>c == 'i' && azArg[0][:n] == "import" && nArg == 3\<close>: the value of \<open>rc\<close> at
  the end of the branch (the command returns it), the session and the calls made on the
  engine. Messages on stderr are left out.\<close>

definition meta_import ::
  "import_env \<Rightarrow> string list \<Rightarrow> callback_data \<Rightarrow> (int \<times> callback_data \<times> db_call list) outcome" where
  "meta_import env azArg p =
     (case open_db (ie_sqlite3_open env) p of
        Exit n \<Rightarrow> Exit n
      | Return p1 \<Rightarrow>
         (let zTable = azArg ! 2; zFile = azArg ! 1; nSep = strlen30 (separator p1) in
          if nSep = 0 then Return (1, p1, [])
          else if \<not> ie_mprintf_ok env then Return (1, p1, [])
          else
            (let zSql = ''SELECT * FROM '' @ zTable;
                 nByte = strlen30 zSql;
                 (rc, nCol) = ie_prepare env [] zSql;
                 calls1 = [Db_prepare zSql, Db_finalize]
             in if rc \<noteq> 0 then Return (1, p1, calls1)
                else if nCol = 0 then Return (0, p1, calls1)
                else if \<not> ie_malloc_zSql_ok env then Return (1, p1, calls1)
                else
                  (let zStart = sqlite3_snprintf (nByte + 20)
                                  (''INSERT INTO '' @ zTable @ '' VALUES(?'');
                       zInsert = take (nat (strlen30 zStart)) zStart
                                 @ concat (replicate (nCol - 1) '',?'') @ '')'';
                       (rc, n) = ie_prepare env calls1 zInsert;
                       calls2 = calls1 @ [Db_prepare zInsert]
                   in if rc \<noteq> 0 then Return (1, p1, calls2 @ [Db_finalize])
                      else
                        (case ie_fopen env zFile of
                           None \<Rightarrow> Return (1, p1, calls2 @ [Db_finalize])
                         | Some lines \<Rightarrow>
                             if \<not> ie_malloc_azCol_ok env
                             then Return (1, p1, calls2 @ [Db_finalize])
                             else
                               (let (rc', calls3) =
                                      import_transaction env (separator p1) nCol lines calls2 rc
                                in Return (rc', p1, calls3)))))))"

subsection \<open>The \<^verbatim>\<open>.mode\<close> command\<close>

text \<open>\<^verbatim>\<open>sizeof(p->separator)\<close>.\<close>

definition sizeof_separator :: int where
  "sizeof_separator = 20"

text \<open>The branch \<^verbatim>\<open>c == 'm' && azArg[0][:n] == "mode" && nArg == 2\<close>. The slice
  \<^verbatim>\<open>azArg[1][:n2]\<close> is \<open>take n2\<close> of the token.\<close>

definition meta_mode2 :: "bool \<Rightarrow> string list \<Rightarrow> callback_data \<Rightarrow> (int \<times> callback_data) outcome" where
  "meta_mode2 malloc_ok azArg p =
     (let n2 = strlen30 (azArg ! 1);
          arg = take (nat n2) (azArg ! 1)
      in if (n2 = 4 \<and> arg = ''line'') \<or> (n2 = 5 \<and> arg = ''lines'')
         then Return (0, p\<lparr>mode := MODE_Line\<rparr>)
         else if (n2 = 6 \<and> arg = ''column'') \<or> (n2 = 7 \<and> arg = ''columns'')
         then Return (0, p\<lparr>mode := MODE_Column\<rparr>)
         else if n2 = 4 \<and> arg = ''list''
         then Return (0, p\<lparr>mode := MODE_List\<rparr>)
         else if n2 = 4 \<and> arg = ''html''
         then Return (0, p\<lparr>mode := MODE_Html\<rparr>)
         else if n2 = 3 \<and> arg = ''tcl''
         then Return (0, p\<lparr>mode := MODE_Tcl, separator := sqlite3_snprintf sizeof_separator '' ''\<rparr>)
         else if n2 = 3 \<and> arg = ''csv''
         then Return (0, p\<lparr>mode := MODE_Csv, separator := sqlite3_snprintf sizeof_separator '',''\<rparr>)
         else if n2 = 4 \<and> arg = ''tabs''
         then Return (0, p\<lparr>mode := MODE_List, separator := sqlite3_snprintf sizeof_separator [TAB]\<rparr>)
         else if n2 = 6 \<and> arg = ''insert''
         then (case set_table_name malloc_ok (p\<lparr>mode := MODE_Insert\<rparr>) (Some ''table'') of
                 Exit n \<Rightarrow> Exit n
               | Return p1 \<Rightarrow> Return (0, p1))
         else Return (1, p))"

text \<open>The branch \<^verbatim>\<open>c == 'm' && azArg[0][:n] == "mode" && nArg == 3\<close>.\<close>

definition meta_mode3 :: "bool \<Rightarrow> string list \<Rightarrow> callback_data \<Rightarrow> (int \<times> callback_data) outcome" where
  "meta_mode3 malloc_ok azArg p =
     (let n2 = strlen30 (azArg ! 1);
          arg = take (nat n2) (azArg ! 1)
      in if n2 = 6 \<and> arg = ''insert''
         then (case set_table_name malloc_ok (p\<lparr>mode := MODE_Insert\<rparr>) (Some (azArg ! 2)) of
                 Exit n \<Rightarrow> Exit n
               | Return p1 \<Rightarrow> Return (0, p1))
         else Return (1, p))"

subsection \<open>\<^verbatim>\<open>do_meta_command\<close>\<close>

text \<open>The branches of the \<^verbatim>\<open>if ... else if\<close> chain, in the order of the source, up to the
  two \<^verbatim>\<open>.mode\<close> branches; \<open>CMD_later\<close> stands for the rest of the chain.\<close>

datatype command = CMD_backup | CMD_bail | CMD_breakpoint | CMD_databases | CMD_dump
  | CMD_echo | CMD_exit | CMD_explain | CMD_header | CMD_help | CMD_import | CMD_indices
  | CMD_load | CMD_log | CMD_mode2 | CMD_mode3 | CMD_later

definition dispatch :: "string list \<Rightarrow> command" where
  "dispatch azArg =
     (let nArg = int (length azArg);
          n = strlen30 (azArg ! 0);
          c = first_byte (azArg ! 0);
          name = take (nat n) (azArg ! 0)
      in if c = CHR ''b'' \<and> n \<ge> 3 \<and> name = ''backup'' then CMD_backup
         else if c = CHR ''b'' \<and> n \<ge> 3 \<and> name = ''bail'' \<and> nArg > 1 \<and> nArg < 3 then CMD_bail
         else if c = CHR ''b'' \<and> n \<ge> 3 \<and> name = ''breakpoint'' then CMD_breakpoint
         else if c = CHR ''d'' \<and> n > 1 \<and> name = ''databases'' \<and> nArg = 1 then CMD_databases
         else if c = CHR ''d'' \<and> name = ''dump'' \<and> nArg < 3 then CMD_dump
         else if c = CHR ''e'' \<and> name = ''echo'' \<and> nArg > 1 \<and> nArg < 3 then CMD_echo
         else if c = CHR ''e'' \<and> name = ''exit'' then CMD_exit
         else if c = CHR ''e'' \<and> name = ''explain'' \<and> nArg < 3 then CMD_explain
         else if c = CHR ''h'' \<and> (name = ''header'' \<or> name = ''headers'') \<and> nArg > 1 \<and> nArg < 3
         then CMD_header
         else if c = CHR ''h'' \<and> name = ''help'' then CMD_help
         else if c = CHR ''i'' \<and> name = ''import'' \<and> nArg = 3 then CMD_import
         else if c = CHR ''i'' \<and> name = ''indices'' \<and> nArg < 3 then CMD_indices
         else if c = CHR ''l'' \<and> name = ''load'' \<and> nArg \<ge> 2 then CMD_load
         else if c = CHR ''l'' \<and> name = ''log'' \<and> nArg \<ge> 2 then CMD_log
         else if c = CHR ''m'' \<and> name = ''mode'' \<and> nArg = 2 then CMD_mode2
         else if c = CHR ''m'' \<and> name = ''mode'' \<and> nArg = 3 then CMD_mode3
         else CMD_later)"

text \<open>
  What the surroundings answer to a meta-command: the answers to \<^verbatim>\<open>.import\<close>, whether the
  allocation in \<^verbatim>\<open>set_table_name\<close> succeeds, and what the branches that are not modelled
  here return and make of the session.
\<close>

record meta_env =
  me_import :: import_env
  me_malloc_ok :: bool
  me_other :: "command \<Rightarrow> string list \<Rightarrow> callback_data \<Rightarrow> (int \<times> callback_data \<times> db_call list) outcome"

text \<open>The result of \<^verbatim>\<open>do_meta_command(zLine, p)\<close>: the value returned, the session afterwards
  and the calls made on the engine by \<^verbatim>\<open>.import\<close>.\<close>

definition do_meta_command ::
  "meta_env \<Rightarrow> string \<Rightarrow> callback_data \<Rightarrow> fault + (int \<times> callback_data \<times> db_call list) outcome" where
  "do_meta_command env zLine p =
     (case tokenize zLine of
        Inl f \<Rightarrow> Inl f
      | Inr azArg \<Rightarrow>
          Inr (if length azArg = 0 then Return (0, p, [])
               else
                 (case dispatch azArg of
                    CMD_import \<Rightarrow> meta_import (me_import env) azArg p
                  | CMD_mode2 \<Rightarrow>
                      (case meta_mode2 (me_malloc_ok env) azArg p of
                         Exit n \<Rightarrow> Exit n
                       | Return (rc, p1) \<Rightarrow> Return (rc, p1, []))
                  | CMD_mode3 \<Rightarrow>
                      (case meta_mode3 (me_malloc_ok env) azArg p of
                         Exit n \<Rightarrow> Exit n
                       | Return (rc, p1) \<Rightarrow> Return (rc, p1, []))
                  | cmd \<Rightarrow> me_other env cmd azArg p)))"

subsection \<open>Text scanners\<close>

text \<open>\<^verbatim>\<open>while( *z && (*z!='*' || z[1]!='/') ){ z++; }\<close>\<close>

fun skip_block_comment :: "string \<Rightarrow> string" where
  "skip_block_comment [] = []"
| "skip_block_comment (c # rest) =
     (if c \<noteq> CHR ''*'' \<or> first_byte rest \<noteq> CHR ''/'' then skip_block_comment rest
      else c # rest)"

text \<open>\<^verbatim>\<open>_all_whitespace\<close>\<close>

function all_whitespace :: "string \<Rightarrow> bool" where
  "all_whitespace [] = True"
| "all_whitespace (c # rest) =
     (if IsSpace c then all_whitespace rest
      else if c = CHR ''/'' \<and> first_byte rest = CHR ''*'' then
        (let z = skip_block_comment (drop 1 rest)
         in if z = [] then False else all_whitespace (drop 2 z))
      else if c = CHR ''-'' \<and> first_byte rest = CHR ''-'' then
        (let z = dropWhile (\<lambda>x. x \<noteq> NL) (drop 1 rest)
         in if z = [] then True else all_whitespace (drop 1 z))
      else False)"
  by pat_completeness auto
termination
proof -
  have shorter: "length (skip_block_comment z) \<le> length z" for z
    by (induction z) auto
  have drop_shorter: "length (dropWhile (\<lambda>x. x \<noteq> NL) (drop 1 z)) \<le> length z" for z :: string
  proof -
    have "length (dropWhile (\<lambda>x. x \<noteq> NL) (drop 1 z)) \<le> length (drop 1 z)"
      by (rule length_dropWhile_le)
    then show ?thesis by simp
  qed
  have skip_drop: "length (skip_block_comment (drop 1 z)) \<le> length z" for z
  proof -
    have "length (skip_block_comment (drop 1 z)) \<le> length (drop 1 z)"
      by (rule shorter)
    then show ?thesis by simp
  qed
  show ?thesis
  proof (relation "measure length")
    show "wf (measure length)" by simp
  next
    fix c :: char and rest :: string
    show "(rest, c # rest) \<in> measure length" by simp
  next
    fix c :: char and rest z :: string
    assume "z = skip_block_comment (drop 1 rest)"
    with skip_drop [of rest] show "(drop 2 z, c # rest) \<in> measure length" by simp
  next
    fix c :: char and rest z :: string
    assume "z = dropWhile (\<lambda>x. x \<noteq> NL) (drop 1 rest)"
    with drop_shorter [of rest] show "(drop 1 z, c # rest) \<in> measure length" by simp
  qed
qed

declare all_whitespace.simps [simp del]

text \<open>\<^verbatim>\<open>_is_command_terminator\<close>; \<^verbatim>\<open>strings.ToLower(zLine[0]) == 'g'\<close> holds for \<open>g\<close> and \<open>G\<close>.\<close>

definition is_command_terminator :: "string \<Rightarrow> bool" where
  "is_command_terminator zLine =
     (let z = dropWhile IsSpace zLine in
      if first_byte z = CHR ''/'' \<and> all_whitespace (drop 1 z) then True
      else if (first_byte z = CHR ''g'' \<or> first_byte z = CHR ''G'')
              \<and> (first_byte (drop 1 z) = CHR ''o'' \<or> first_byte (drop 1 z) = CHR ''O'')
              \<and> all_whitespace (drop 2 z) then True
      else False)"

text \<open>\<^verbatim>\<open>_contains_semicolon(z, N)\<close>\<close>

definition contains_semicolon :: "string \<Rightarrow> int \<Rightarrow> bool" where
  "contains_semicolon z N = list_ex (\<lambda>c. c = CHR '';'') (take (nat N) z)"

text \<open>\<^verbatim>\<open>_is_complete(zSql, nSql)\<close>, with the engine's \<^verbatim>\<open>sqlite3_complete\<close> as a parameter.\<close>

definition is_complete :: "(string \<Rightarrow> bool) \<Rightarrow> string option \<Rightarrow> int \<Rightarrow> bool" where
  "is_complete sqlite3_complete zSql nSql =
     (case zSql of None \<Rightarrow> True
      | Some q \<Rightarrow> sqlite3_complete (take (nat nSql) q @ '';''))"

subsection \<open>The input loop: \<^verbatim>\<open>process_input\<close>\<close>

text \<open>
  The loop is modelled over everything it does not decide itself: \<open>'w\<close> is the state it
  hands to the commands it runs (the session, the engine and the global
  \<^verbatim>\<open>bail_on_error\<close>, which \<^verbatim>\<open>.bail\<close> changes). \<open>run_meta\<close> is \<^verbatim>\<open>do_meta_command\<close> (with the echo
  before it) and answers its return value; \<open>run_sql\<close> is \<^verbatim>\<open>p->cnt = 0; open_db(p);
  shell_exec(...)\<close> and answers whether \<^verbatim>\<open>rc || zErrMsg\<close> holds. Both answer \<open>None\<close> when the
  process ends inside them. The messages written to stdout and stderr, and the line
  numbers kept for them, are left out.
\<close>

record 'w input_env =
  stdin_is_interactive :: bool
  bail_on_error :: "'w \<Rightarrow> bool"
  sqlite3_complete :: "string \<Rightarrow> bool"
  run_meta :: "string \<Rightarrow> 'w \<Rightarrow> (int \<times> 'w) option"
  run_sql :: "string \<Rightarrow> 'w \<Rightarrow> (bool \<times> 'w) option"

text \<open>One line of input as \<^verbatim>\<open>one_input_line\<close> returns it, with the value of \<^verbatim>\<open>seenInterrupt\<close>
  at that moment and whether the allocation of the statement buffer for this line
  succeeds.\<close>

record input_line =
  line_text :: string
  line_seenInterrupt :: bool
  line_malloc_ok :: bool

record 'w input_state =
  in_world :: 'w
  in_zSql :: "string option"
  in_nSql :: int
  in_errCnt :: int

datatype 'w line_result = Continue "'w input_state" | Break_interrupt "'w input_state"
  | Break_exit "'w input_state" | Process_exit

text \<open>A line that starts with a dot while no statement is being collected:
  \<^verbatim>\<open>rc = do_meta_command(zLine, p)\<close> and what the loop makes of \<open>rc\<close>.\<close>

definition meta_line :: "'w input_env \<Rightarrow> 'w input_state \<Rightarrow> input_line \<Rightarrow> 'w line_result" where
  "meta_line env s l =
     (case run_meta env (line_text l) (in_world s) of
        None \<Rightarrow> Process_exit
      | Some (rc, w) \<Rightarrow>
          if rc = 2 then Break_exit (s\<lparr>in_world := w\<rparr>)
          else if rc \<noteq> 0 then Continue (s\<lparr>in_world := w, in_errCnt := in_errCnt s + 1\<rparr>)
          else Continue (s\<lparr>in_world := w\<rparr>))"

text \<open>Appending the line to the statement buffer: the new \<open>zSql\<close> and \<open>nSql\<close>, or none when
  the allocation fails and the process ends with \<^verbatim>\<open>exit(1)\<close>.\<close>

definition grow_statement ::
  "'w input_state \<Rightarrow> input_line \<Rightarrow> string \<Rightarrow> (string option \<times> int) option" where
  "grow_statement s l line =
     (case in_zSql s of
        None \<Rightarrow>
          if dropWhile IsSpace line \<noteq> []
          then (if line_malloc_ok l then Some (Some line, strlen30 line) else None)
          else Some (None, in_nSql s)
      | Some q \<Rightarrow>
          if line_malloc_ok l
          then Some (Some (take (nat (in_nSql s)) q @ [NL] @ line), in_nSql s + 1 + strlen30 line)
          else None)"

text \<open>After the line was appended: run the buffer when it holds a complete statement,
  drop it when it is white space only, keep it otherwise.\<close>

definition run_statement ::
  "'w input_env \<Rightarrow> 'w input_state \<Rightarrow> int \<Rightarrow> string option \<Rightarrow> int \<Rightarrow> 'w line_result" where
  "run_statement env s nSqlPrior zSql1 nSql1 =
     (case zSql1 of
        None \<Rightarrow> Continue (s\<lparr>in_zSql := zSql1, in_nSql := nSql1\<rparr>)
      | Some q \<Rightarrow>
          if contains_semicolon (drop (nat nSqlPrior) q) (nSql1 - nSqlPrior)
             \<and> sqlite3_complete env q
          then
            (case run_sql env q (in_world s) of
               None \<Rightarrow> Process_exit
             | Some (failed, w) \<Rightarrow>
                 Continue (s\<lparr>in_world := w, in_zSql := None, in_nSql := 0,
                             in_errCnt := (if failed then in_errCnt s + 1 else in_errCnt s)\<rparr>))
          else if all_whitespace q
          then Continue (s\<lparr>in_zSql := None, in_nSql := 0\<rparr>)
          else Continue (s\<lparr>in_zSql := zSql1, in_nSql := nSql1\<rparr>))"

definition sql_line :: "'w input_env \<Rightarrow> 'w input_state \<Rightarrow> input_line \<Rightarrow> 'w line_result" where
  "sql_line env s l =
     (let line = (if is_command_terminator (line_text l)
                     \<and> is_complete (sqlite3_complete env) (in_zSql s) (in_nSql s)
                  then '';'' else line_text l);
          nSqlPrior = in_nSql s
      in case grow_statement s l line of
           None \<Rightarrow> Process_exit
         | Some (zSql1, nSql1) \<Rightarrow> run_statement env s nSqlPrior zSql1 nSql1)"

text \<open>The body of the \<^verbatim>\<open>while\<close> loop for a line that was read (\<open>zLine != 0\<close>).\<close>

definition process_line :: "'w input_env \<Rightarrow> bool \<Rightarrow> 'w input_state \<Rightarrow> input_line \<Rightarrow> 'w line_result" where
  "process_line env in_is_file s l =
     (if line_seenInterrupt l \<and> in_is_file then Break_interrupt s
      else if (in_zSql s = None \<or> in_zSql s = Some []) \<and> all_whitespace (line_text l) then Continue s
      else if first_byte (line_text l) = CHR ''.'' \<and> in_nSql s = 0 then meta_line env s l
      else sql_line env s l)"

text \<open>How the loop was left, and what \<^verbatim>\<open>process_input\<close> hands back: the reason, the state and
  the lines that were never read.\<close>

datatype stop_reason = End_of_input | Exit_requested | Interrupted | Bailed

datatype 'w input_result = Returned stop_reason "'w input_state" "input_line list" | Process_ended

text \<open>
  \<^verbatim>\<open>while( errCnt==0 || !bail_on_error || (in==0 && stdin_is_interactive) )\<close> over the lines
  that the input still holds; \<open>in_is_file\<close> is \<open>in != 0\<close>.
\<close>

fun process_input_loop ::
  "'w input_env \<Rightarrow> bool \<Rightarrow> 'w input_state \<Rightarrow> input_line list \<Rightarrow> 'w input_result" where
  "process_input_loop env in_is_file s lines =
     (if in_errCnt s = 0 \<or> \<not> bail_on_error env (in_world s)
         \<or> (\<not> in_is_file \<and> stdin_is_interactive env)
      then
        (case lines of
           [] \<Rightarrow> Returned End_of_input s []
         | l # rest \<Rightarrow>
             (case process_line env in_is_file s l of
                Continue s' \<Rightarrow> process_input_loop env in_is_file s' rest
              | Break_interrupt s' \<Rightarrow> Returned Interrupted s' rest
              | Break_exit s' \<Rightarrow> Returned Exit_requested s' rest
              | Process_exit \<Rightarrow> Process_ended))
      else Returned Bailed s lines)"

declare process_input_loop.simps [simp del]

text \<open>\<^verbatim>\<open>process_input(p, in)\<close>: the loop from its initial state; the function returns
  \<open>errCnt\<close>.\<close>

definition process_input :: "'w input_env \<Rightarrow> bool \<Rightarrow> 'w \<Rightarrow> input_line list \<Rightarrow> 'w input_result" where
  "process_input env in_is_file w lines =
     process_input_loop env in_is_file \<lparr>in_world = w, in_zSql = None, in_nSql = 0, in_errCnt = 0\<rparr> lines"

text \<open>The SQL texts that a log shows as handed to \<^verbatim>\<open>sqlite3_exec\<close>, in order.\<close>

definition exec_texts :: "db_call list \<Rightarrow> string list" where
  "exec_texts log = concat (map (\<lambda>c. case c of Db_exec q \<Rightarrow> [q] | _ \<Rightarrow> []) log)"

text \<open>The wording of the specification: a value is quoted if and only if it "contains the
  active separator, a double quote, or a control or high-bit byte (including newline)".\<close>

definition spec_csv_needs_quote :: "string \<Rightarrow> string \<Rightarrow> bool" where
  "spec_csv_needs_quote sep z =
     ((sep \<noteq> [] \<and> list_ex (\<lambda>i. take (length sep) (drop i z) = sep) [0..<length z])
      \<or> list_ex (\<lambda>c. c = DQUOTE \<or> (of_char c :: nat) < 32 \<or> (of_char c :: nat) = 127
                    \<or> 128 \<le> (of_char c :: nat)) z)"

subsection \<open>Observations on a run of \<^verbatim>\<open>.import\<close>\<close>

text \<open>The value \<^verbatim>\<open>i+1\<close> that the loop compares with \<^verbatim>\<open>nCol\<close> once it has cut a line.\<close>

definition line_fields :: "string \<Rightarrow> nat \<Rightarrow> string \<Rightarrow> nat" where
  "line_fields sep nCol zLine = fst (import_split sep nCol False 0 zLine [] (Some [])) + 1"

text \<open>The number of \<^verbatim>\<open>pStmt.Step()\<close> calls in a log, and the calls of \<^verbatim>\<open>sqlite3_exec\<close>.\<close>

definition rows_stepped :: "db_call list \<Rightarrow> nat" where
  "rows_stepped calls = length (filter (\<lambda>c. c = Db_step) calls)"

fun is_exec :: "db_call \<Rightarrow> bool" where
  "is_exec (Db_exec s) = True"
| "is_exec _ = False"

text \<open>\<^verbatim>\<open>nCol = sqlite3_column_count(pStmt)\<close> for the statement \<^verbatim>\<open>SELECT * FROM zTable\<close>.\<close>

definition table_columns :: "import_env \<Rightarrow> string \<Rightarrow> nat" where
  "table_columns env zTable = snd (ie_prepare env [] (''SELECT * FROM '' @ zTable))"

subsection \<open>Lines that run a command\<close>

text \<open>
  The line \<open>l\<close>, read in the state \<open>s\<close>, is handed to \<^verbatim>\<open>do_meta_command\<close>, which returns \<open>rc\<close>
  and leaves the world \<open>w\<close>: the read was not interrupted, the line starts with a dot and
  no statement is being collected.
\<close>

definition meta_command_returns ::
  "'w input_env \<Rightarrow> bool \<Rightarrow> 'w input_state \<Rightarrow> input_line \<Rightarrow> int \<Rightarrow> 'w \<Rightarrow> bool" where
  "meta_command_returns env in_is_file s l rc w =
     (\<not> (line_seenInterrupt l \<and> in_is_file)
      \<and> first_byte (line_text l) = CHR ''.'' \<and> in_nSql s = 0
      \<and> run_meta env (line_text l) (in_world s) = Some (rc, w))"

text \<open>
  The line \<open>l\<close>, read in the state \<open>s\<close>, completes the statement \<open>q\<close>, which is handed to
  \<^verbatim>\<open>shell_exec\<close>; \<open>failed\<close> is \<^verbatim>\<open>rc || zErrMsg\<close> and \<open>w\<close> the world afterwards. The read was not
  interrupted, the line is not skipped and not a meta-command, the buffer with the line
  appended is \<open>q\<close>, the part just appended holds a semicolon and the engine finds \<open>q\<close>
  complete.
\<close>

definition statement_runs ::
  "'w input_env \<Rightarrow> bool \<Rightarrow> 'w input_state \<Rightarrow> input_line \<Rightarrow> string \<Rightarrow> bool \<Rightarrow> 'w \<Rightarrow> bool" where
  "statement_runs env in_is_file s l q failed w =
     (\<not> (line_seenInterrupt l \<and> in_is_file)
      \<and> \<not> ((in_zSql s = None \<or> in_zSql s = Some []) \<and> all_whitespace (line_text l))
      \<and> \<not> (first_byte (line_text l) = CHR ''.'' \<and> in_nSql s = 0)
      \<and> (case grow_statement s l
                 (if is_command_terminator (line_text l)
                     \<and> is_complete (sqlite3_complete env) (in_zSql s) (in_nSql s)
                  then '';'' else line_text l) of
            Some (Some q', nSql1) \<Rightarrow>
              q' = q \<and> contains_semicolon (drop (nat (in_nSql s)) q) (nSql1 - in_nSql s)
          | _ \<Rightarrow> False)
      \<and> sqlite3_complete env q
      \<and> run_sql env q (in_world s) = Some (failed, w))"

text \<open>The calls that insert one line of the file: the binds of its columns, the step and
  the reset.\<close>

definition line_calls :: "string \<Rightarrow> nat \<Rightarrow> string \<Rightarrow> db_call list" where
  "line_calls sep nCol zLine =
     import_row_calls (snd (import_split sep nCol False 0 zLine [] (Some [])))"

text \<open>The wording of the specification: a text "laid out with the width" \<open>w\<close> is cut to
  \<open>|w|\<close> bytes and filled up with spaces to \<open>|w|\<close> bytes, on its right, or on its left
  when \<open>w\<close> is negative.\<close>

definition laid_out :: "int \<Rightarrow> string \<Rightarrow> string" where
  "laid_out w v =
     (let t = take (nat \<bar>w\<bar>) v;
          pad = replicate (nat \<bar>w\<bar> - length t) (CHR '' '')
      in if w < 0 then pad @ t else t @ pad)"

subsection \<open>Escapes as the comment above \<^verbatim>\<open>resolve_backslashes\<close> lists them\<close>



section \<open>Verified properties\<close>

subsection \<open>Row terminator of the table dump\<close>


lemma dump_rows_map:
  "dump_rows n None steps =
     concat (map (\<lambda>(rc, r). dump_row n r) (takeWhile (\<lambda>(rc, r). rc = SQLITE_ROW) steps))"
  by (induction steps) auto













subsection \<open>The output mode commands\<close>

lemma tokenize_mode_csv: "tokenize ''.mode csv'' = Inr [''mode'', ''csv'']"
  by code_simp

lemma tokenize_mode_tabs: "tokenize ''.mode tabs'' = Inr [''mode'', ''tabs'']"
  by code_simp

lemma dispatch_mode2: "dispatch [''mode'', a] = CMD_mode2"
  by (simp add: dispatch_def first_byte_def strlen30_def)

text \<open>
  C8: \<^verbatim>\<open>.mode csv\<close> returns 0 and leaves the session as it was except for the mode, now
  csv, and the separator, now a comma; \<^verbatim>\<open>.mode tabs\<close> after it returns 0 and sets the mode
  to list and the separator to a tab. The session after each command is the session
  before it with these two fields updated, so the header flag, the null text, the column
  widths, echo, stats, the destination table, the output sink and every other field of
  \<^verbatim>\<open>struct callback_data\<close> keep their values; no call is made on the engine.
\<close>

theorem mode_csv_then_tabs:
  "do_meta_command env ''.mode csv'' p
     = Inr (Return (0, p\<lparr>mode := MODE_Csv, separator := '',''\<rparr>, []))
   \<and> do_meta_command env ''.mode tabs'' (p\<lparr>mode := MODE_Csv, separator := '',''\<rparr>)
     = Inr (Return (0, p\<lparr>mode := MODE_List, separator := [TAB]\<rparr>, []))"
  by (simp add: do_meta_command_def tokenize_mode_csv tokenize_mode_tabs dispatch_mode2
      meta_mode2_def strlen30_def sqlite3_snprintf_def sizeof_separator_def)


subsection \<open>Bail-on-error in the input loop\<close>

lemma process_input_loop_runs:
  "in_errCnt s = 0 \<or> \<not> bail_on_error env (in_world s) \<or> (\<not> in_is_file \<and> stdin_is_interactive env) \<Longrightarrow>
   process_input_loop env in_is_file s (l # rest) =
     (case process_line env in_is_file s l of
        Continue s' \<Rightarrow> process_input_loop env in_is_file s' rest
      | Break_interrupt s' \<Rightarrow> Returned Interrupted s' rest
      | Break_exit s' \<Rightarrow> Returned Exit_requested s' rest
      | Process_exit \<Rightarrow> Process_ended)"
  by (subst process_input_loop.simps) simp

lemma process_input_loop_bails:
  "in_errCnt s \<noteq> 0 \<Longrightarrow> bail_on_error env (in_world s) \<Longrightarrow>
   \<not> (\<not> in_is_file \<and> stdin_is_interactive env) \<Longrightarrow>
   process_input_loop env in_is_file s lines = Returned Bailed s lines"
  by (subst process_input_loop.simps) auto

lemma meta_line_no_interrupt: "meta_line env s l \<noteq> Break_interrupt s'"
  by (simp add: meta_line_def split: option.split prod.split)

lemma run_statement_no_interrupt: "run_statement env s n z m \<noteq> Break_interrupt s'"
  by (simp add: run_statement_def split: option.split prod.split)

lemma sql_line_no_interrupt: "sql_line env s l \<noteq> Break_interrupt s'"
  by (simp add: sql_line_def Let_def run_statement_no_interrupt split: option.split prod.split)

lemma process_line_no_interrupt: "process_line env False s l \<noteq> Break_interrupt s'"
  by (simp add: process_line_def meta_line_no_interrupt sql_line_no_interrupt)

lemma interactive_run_ends:
  assumes "stdin_is_interactive env"
    and "process_input_loop env False s lines = Returned r s' unread"
  shows "(r = End_of_input \<and> unread = []) \<or> r = Exit_requested"
  using assms(2)
proof (induction lines arbitrary: s)
  case Nil
  with assms(1) show ?case
    by (subst (asm) process_input_loop.simps) simp
next
  case (Cons l rest)
  have unfold: "process_input_loop env False s (l # rest) =
       (case process_line env False s l of
          Continue s' \<Rightarrow> process_input_loop env False s' rest
        | Break_interrupt s' \<Rightarrow> Returned Interrupted s' rest
        | Break_exit s' \<Rightarrow> Returned Exit_requested s' rest
        | Process_exit \<Rightarrow> Process_ended)"
    using assms(1) by (intro process_input_loop_runs) simp
  show ?case
  proof (cases "process_line env False s l")
    case (Continue s1)
    with Cons.prems unfold have "process_input_loop env False s1 rest = Returned r s' unread"
      by simp
    then show ?thesis by (rule Cons.IH)
  next
    case (Break_interrupt s1)
    then show ?thesis by (simp add: process_line_no_interrupt)
  next
    case (Break_exit s1)
    with Cons.prems unfold show ?thesis by simp
  next
    case Process_exit
    with Cons.prems unfold show ?thesis by simp
  qed
qed

lemma dot_not_whitespace: "first_byte z = CHR ''.'' \<Longrightarrow> \<not> all_whitespace z"
  by (cases z) (auto simp: first_byte_def all_whitespace.simps IsSpace_def)

lemma process_line_meta:
  assumes "meta_command_returns env in_is_file s l rc w"
  shows "process_line env in_is_file s l =
     (if rc = 2 then Break_exit (s\<lparr>in_world := w\<rparr>)
      else if rc \<noteq> 0 then Continue (s\<lparr>in_world := w, in_errCnt := in_errCnt s + 1\<rparr>)
      else Continue (s\<lparr>in_world := w\<rparr>))"
proof -
  from assms have a: "\<not> (line_seenInterrupt l \<and> in_is_file)"
    and b: "first_byte (line_text l) = CHR ''.''" and c: "in_nSql s = 0"
    and d: "run_meta env (line_text l) (in_world s) = Some (rc, w)"
    unfolding meta_command_returns_def by blast+
  from b have e: "\<not> all_whitespace (line_text l)" by (rule dot_not_whitespace)
  have "process_line env in_is_file s l = meta_line env s l"
    unfolding process_line_def by (simp only: a b c e if_False if_True simp_thms)
  with d show ?thesis by (simp add: meta_line_def)
qed

lemma statement_runs_grows:
  assumes "statement_runs env in_is_file s l q failed w"
  obtains nSql1 where
    "grow_statement s l
       (if is_command_terminator (line_text l)
           \<and> is_complete (sqlite3_complete env) (in_zSql s) (in_nSql s)
        then '';'' else line_text l) = Some (Some q, nSql1)"
    "contains_semicolon (drop (nat (in_nSql s)) q) (nSql1 - in_nSql s)"
proof -
  define g where "g = grow_statement s l
       (if is_command_terminator (line_text l)
           \<and> is_complete (sqlite3_complete env) (in_zSql s) (in_nSql s)
        then '';'' else line_text l)"
  from assms have c: "case g of
            Some (Some q', nSql1) \<Rightarrow>
              q' = q \<and> contains_semicolon (drop (nat (in_nSql s)) q) (nSql1 - in_nSql s)
          | _ \<Rightarrow> False"
    unfolding statement_runs_def g_def by blast
  have "\<exists>nSql1. g = Some (Some q, nSql1)
      \<and> contains_semicolon (drop (nat (in_nSql s)) q) (nSql1 - in_nSql s)"
  proof (cases g)
    case None
    with c show ?thesis by simp
  next
    case (Some a)
    obtain z n where a: "a = (z, n)" by (cases a)
    show ?thesis
    proof (cases z)
      case None
      with c Some a show ?thesis by simp
    next
      case (Some q')
      with c \<open>g = Some a\<close> a show ?thesis by simp
    qed
  qed
  then show ?thesis using that unfolding g_def by blast
qed

lemma process_line_statement:
  assumes "statement_runs env in_is_file s l q failed w"
  shows "process_line env in_is_file s l =
     Continue (s\<lparr>in_world := w, in_zSql := None, in_nSql := 0,
                 in_errCnt := (if failed then in_errCnt s + 1 else in_errCnt s)\<rparr>)"
proof -
  from assms have a: "\<not> (line_seenInterrupt l \<and> in_is_file)"
    and b: "\<not> ((in_zSql s = None \<or> in_zSql s = Some []) \<and> all_whitespace (line_text l))"
    and c: "\<not> (first_byte (line_text l) = CHR ''.'' \<and> in_nSql s = 0)"
    and d: "sqlite3_complete env q" "run_sql env q (in_world s) = Some (failed, w)"
    unfolding statement_runs_def by blast+
  from assms obtain nSql1 where g: "grow_statement s l
       (if is_command_terminator (line_text l)
           \<and> is_complete (sqlite3_complete env) (in_zSql s) (in_nSql s)
        then '';'' else line_text l) = Some (Some q, nSql1)"
    and cs: "contains_semicolon (drop (nat (in_nSql s)) q) (nSql1 - in_nSql s)"
    by (rule statement_runs_grows)
  have "process_line env in_is_file s l = sql_line env s l"
    unfolding process_line_def by (simp only: a b c if_False)
  also from g have "\<dots> = run_statement env s (in_nSql s) (Some q) nSql1"
    unfolding sql_line_def Let_def by (simp only: option.case prod.case)
  also from cs d have "\<dots> = Continue (s\<lparr>in_world := w, in_zSql := None, in_nSql := 0,
                 in_errCnt := (if failed then in_errCnt s + 1 else in_errCnt s)\<rparr>)"
    by (simp add: run_statement_def)
  finally show ?thesis .
qed

lemma meta_line_errCnt:
  assumes "meta_line env s l = Continue s'" "in_errCnt s' \<noteq> in_errCnt s"
  shows "in_errCnt s' = in_errCnt s + 1
    \<and> (\<exists>rc. run_meta env (line_text l) (in_world s) = Some (rc, in_world s') \<and> rc \<noteq> 0 \<and> rc \<noteq> 2)"
  using assms by (auto simp: meta_line_def split: option.splits if_splits)

lemma run_statement_errCnt:
  assumes "run_statement env s nSqlPrior zSql1 nSql1 = Continue s'" "in_errCnt s' \<noteq> in_errCnt s"
  shows "in_errCnt s' = in_errCnt s + 1
    \<and> (\<exists>q. zSql1 = Some q \<and> contains_semicolon (drop (nat nSqlPrior) q) (nSql1 - nSqlPrior)
          \<and> sqlite3_complete env q \<and> run_sql env q (in_world s) = Some (True, in_world s'))"
  using assms by (auto simp: run_statement_def split: option.splits if_splits)

lemma sql_line_errCnt:
  assumes "sql_line env s l = Continue s'" "in_errCnt s' \<noteq> in_errCnt s"
  shows "in_errCnt s' = in_errCnt s + 1
    \<and> (\<exists>q nSql1. grow_statement s l
                 (if is_command_terminator (line_text l)
                     \<and> is_complete (sqlite3_complete env) (in_zSql s) (in_nSql s)
                  then '';'' else line_text l) = Some (Some q, nSql1)
          \<and> contains_semicolon (drop (nat (in_nSql s)) q) (nSql1 - in_nSql s)
          \<and> sqlite3_complete env q \<and> run_sql env q (in_world s) = Some (True, in_world s'))"
proof -
  let ?line = "if is_command_terminator (line_text l)
                     \<and> is_complete (sqlite3_complete env) (in_zSql s) (in_nSql s)
                  then '';'' else line_text l"
  from assms(1) obtain zSql1 nSql1 where
    g: "grow_statement s l ?line = Some (zSql1, nSql1)" and
    r: "run_statement env s (in_nSql s) zSql1 nSql1 = Continue s'"
    by (auto simp: sql_line_def Let_def split: option.splits)
  from run_statement_errCnt [OF r assms(2)] g show ?thesis by auto
qed

lemma process_line_errCnt:
  assumes "process_line env in_is_file s l = Continue s'" "in_errCnt s' \<noteq> in_errCnt s"
  shows "in_errCnt s' = in_errCnt s + 1
    \<and> ((\<exists>rc. meta_command_returns env in_is_file s l rc (in_world s') \<and> rc \<noteq> 0 \<and> rc \<noteq> 2)
       \<or> (\<exists>q. statement_runs env in_is_file s l q True (in_world s')))"
proof -
  from assms have ni: "\<not> (line_seenInterrupt l \<and> in_is_file)"
    and ns: "\<not> ((in_zSql s = None \<or> in_zSql s = Some []) \<and> all_whitespace (line_text l))"
    by (auto simp: process_line_def split: if_splits)
  show ?thesis
  proof (cases "first_byte (line_text l) = CHR ''.'' \<and> in_nSql s = 0")
    case True
    with assms(1) ni ns have "meta_line env s l = Continue s'"
      by (auto simp: process_line_def)
    from meta_line_errCnt [OF this assms(2)] True ni show ?thesis
      by (auto simp: meta_command_returns_def)
  next
    case False
    with assms(1) ni ns have "sql_line env s l = Continue s'"
      by (auto simp: process_line_def)
    from sql_line_errCnt [OF this assms(2)] False ni ns show ?thesis
      by (auto simp: statement_runs_def)
  qed
qed

text \<open>
  C7: (1) when input is not an interactive terminal, no error was counted yet, and the
  line read is handed to \<^verbatim>\<open>do_meta_command\<close>, which returns a value other than 0 and 2,
  or completes a statement that \<^verbatim>\<open>shell_exec\<close> reports as failed, then with bail-on-error
  enabled afterwards the loop is left at once with the error counted: every line after
  it stays unread. (2) \<open>errCnt\<close> changes on a line only by one, and only for such a
  meta-command or statement. (3) More generally the loop is left at once after any line
  that leaves \<open>errCnt\<close> non-zero while bail-on-error is enabled. (4) When input is an
  interactive terminal (\<open>in == 0\<close> and \<open>stdin_is_interactive\<close>), the next line is read and
  processed whatever \<open>errCnt\<close> and bail-on-error are, and (5) a run of the loop then ends
  only at the end of the input or at an exit request, never because of an error.
\<close>

theorem bail_on_error_input_loop:
  "(\<not> (\<not> in_is_file \<and> stdin_is_interactive env) \<longrightarrow> in_errCnt s = 0 \<longrightarrow>
      meta_command_returns env in_is_file s l rc w \<longrightarrow> rc \<noteq> 0 \<longrightarrow> rc \<noteq> 2 \<longrightarrow>
      bail_on_error env w \<longrightarrow>
      process_input_loop env in_is_file s (l # rest) =
        Returned Bailed (s\<lparr>in_world := w, in_errCnt := 1\<rparr>) rest)
   \<and> (\<not> (\<not> in_is_file \<and> stdin_is_interactive env) \<longrightarrow> in_errCnt s = 0 \<longrightarrow>
      statement_runs env in_is_file s l q True w \<longrightarrow> bail_on_error env w \<longrightarrow>
      process_input_loop env in_is_file s (l # rest) =
        Returned Bailed (s\<lparr>in_world := w, in_zSql := None, in_nSql := 0, in_errCnt := 1\<rparr>) rest)
   \<and> (process_line env in_is_file s l = Continue s' \<longrightarrow> in_errCnt s' \<noteq> in_errCnt s \<longrightarrow>
      in_errCnt s' = in_errCnt s + 1
      \<and> ((\<exists>rc. meta_command_returns env in_is_file s l rc (in_world s') \<and> rc \<noteq> 0 \<and> rc \<noteq> 2)
         \<or> (\<exists>q. statement_runs env in_is_file s l q True (in_world s'))))
   \<and> (\<not> (\<not> in_is_file \<and> stdin_is_interactive env) \<longrightarrow>
      in_errCnt s = 0 \<longrightarrow> process_line env in_is_file s l = Continue s' \<longrightarrow>
      in_errCnt s' \<noteq> 0 \<longrightarrow> bail_on_error env (in_world s') \<longrightarrow>
      process_input_loop env in_is_file s (l # rest) = Returned Bailed s' rest)
   \<and> (stdin_is_interactive env \<longrightarrow>
      process_input_loop env False s (l # rest) =
        (case process_line env False s l of
           Continue s' \<Rightarrow> process_input_loop env False s' rest
         | Break_interrupt s' \<Rightarrow> Returned Interrupted s' rest
         | Break_exit s' \<Rightarrow> Returned Exit_requested s' rest
         | Process_exit \<Rightarrow> Process_ended))
   \<and> (stdin_is_interactive env \<longrightarrow>
      process_input_loop env False s lines = Returned r s'' unread \<longrightarrow>
      (r = End_of_input \<and> unread = []) \<or> r = Exit_requested)"
proof -
  have c1: "process_input_loop env in_is_file s (l # rest) =
        Returned Bailed (s\<lparr>in_world := w, in_errCnt := 1\<rparr>) rest"
    if ni: "\<not> (\<not> in_is_file \<and> stdin_is_interactive env)" and z: "in_errCnt s = 0"
      and m: "meta_command_returns env in_is_file s l rc w" and rc: "rc \<noteq> 0" "rc \<noteq> 2"
      and b: "bail_on_error env w"
  proof -
    from process_line_meta [OF m] rc z
    have "process_line env in_is_file s l = Continue (s\<lparr>in_world := w, in_errCnt := 1\<rparr>)"
      by simp
    with ni z b show ?thesis
      by (simp add: process_input_loop_runs process_input_loop_bails)
  qed
  have c2: "process_input_loop env in_is_file s (l # rest) =
        Returned Bailed (s\<lparr>in_world := w, in_zSql := None, in_nSql := 0, in_errCnt := 1\<rparr>) rest"
    if ni: "\<not> (\<not> in_is_file \<and> stdin_is_interactive env)" and z: "in_errCnt s = 0"
      and m: "statement_runs env in_is_file s l q True w"
      and b: "bail_on_error env w"
  proof -
    from process_line_statement [OF m] z
    have "process_line env in_is_file s l =
        Continue (s\<lparr>in_world := w, in_zSql := None, in_nSql := 0, in_errCnt := 1\<rparr>)" by simp
    with ni z b show ?thesis
      by (simp add: process_input_loop_runs process_input_loop_bails)
  qed
  have c3: "in_errCnt s' = in_errCnt s + 1
      \<and> ((\<exists>rc. meta_command_returns env in_is_file s l rc (in_world s') \<and> rc \<noteq> 0 \<and> rc \<noteq> 2)
         \<or> (\<exists>q. statement_runs env in_is_file s l q True (in_world s')))"
    if "process_line env in_is_file s l = Continue s'" "in_errCnt s' \<noteq> in_errCnt s"
    using that by (rule process_line_errCnt)
  have c4: "process_input_loop env in_is_file s (l # rest) = Returned Bailed s' rest"
    if "\<not> (\<not> in_is_file \<and> stdin_is_interactive env)" "in_errCnt s = 0"
      "process_line env in_is_file s l = Continue s'" "in_errCnt s' \<noteq> 0"
      "bail_on_error env (in_world s')"
    using that by (simp add: process_input_loop_runs process_input_loop_bails)
  have c5: "process_input_loop env False s (l # rest) =
        (case process_line env False s l of
           Continue s' \<Rightarrow> process_input_loop env False s' rest
         | Break_interrupt s' \<Rightarrow> Returned Interrupted s' rest
         | Break_exit s' \<Rightarrow> Returned Exit_requested s' rest
         | Process_exit \<Rightarrow> Process_ended)"
    if "stdin_is_interactive env"
    using that by (intro process_input_loop_runs) simp
  have c6: "(r = End_of_input \<and> unread = []) \<or> r = Exit_requested"
    if "stdin_is_interactive env" "process_input_loop env False s lines = Returned r s'' unread"
    using that by (rule interactive_run_ends)
  show ?thesis
    apply (intro conjI)
         apply (intro impI, erule (5) c1)
        apply (intro impI, erule (3) c2)
       apply (intro impI, erule (1) c3)
      apply (intro impI, erule (4) c4)
     apply (intro impI, erule c5)
    apply (intro impI, erule (1) c6)
    done
qed

theorem bail_on_error_input_loop_witness:
  "process_input
     \<lparr>stdin_is_interactive = False, bail_on_error = (\<lambda>w. w), sqlite3_complete = (\<lambda>z. True),
      run_meta = (\<lambda>z w. Some (1, w)), run_sql = (\<lambda>z w. Some (True, w))\<rparr>
     True True
     [\<lparr>line_text = ''.nosuch'', line_seenInterrupt = False, line_malloc_ok = True\<rparr>,
      \<lparr>line_text = ''.help'', line_seenInterrupt = False, line_malloc_ok = True\<rparr>]
   = Returned Bailed \<lparr>in_world = True, in_zSql = None, in_nSql = 0, in_errCnt = 1\<rparr>
       [\<lparr>line_text = ''.help'', line_seenInterrupt = False, line_malloc_ok = True\<rparr>]
   \<and> process_input
     \<lparr>stdin_is_interactive = False, bail_on_error = (\<lambda>w. w), sqlite3_complete = (\<lambda>z. True),
      run_meta = (\<lambda>z w. Some (1, w)), run_sql = (\<lambda>z w. Some (True, w))\<rparr>
     True True
     [\<lparr>line_text = ''select x;'', line_seenInterrupt = False, line_malloc_ok = True\<rparr>,
      \<lparr>line_text = ''select 1;'', line_seenInterrupt = False, line_malloc_ok = True\<rparr>]
   = Returned Bailed \<lparr>in_world = True, in_zSql = None, in_nSql = 0, in_errCnt = 1\<rparr>
       [\<lparr>line_text = ''select 1;'', line_seenInterrupt = False, line_malloc_ok = True\<rparr>]
   \<and> process_input
     \<lparr>stdin_is_interactive = True, bail_on_error = (\<lambda>w. w), sqlite3_complete = (\<lambda>z. True),
      run_meta = (\<lambda>z w. Some (1, w)), run_sql = (\<lambda>z w. Some (True, w))\<rparr>
     False True
     [\<lparr>line_text = ''.nosuch'', line_seenInterrupt = False, line_malloc_ok = True\<rparr>,
      \<lparr>line_text = ''select x;'', line_seenInterrupt = False, line_malloc_ok = True\<rparr>]
   = Returned End_of_input \<lparr>in_world = True, in_zSql = None, in_nSql = 0, in_errCnt = 2\<rparr> []"
proof (intro conjI)
  let ?env = "\<lparr>stdin_is_interactive = False, bail_on_error = (\<lambda>w. w),
      sqlite3_complete = (\<lambda>z. True),
      run_meta = (\<lambda>z w. Some (1, w)), run_sql = (\<lambda>z w. Some (True, w))\<rparr>
      :: bool input_env"
  let ?s = "\<lparr>in_world = True, in_zSql = None, in_nSql = 0, in_errCnt = 0\<rparr>"
  let ?s' = "\<lparr>in_world = True, in_zSql = None, in_nSql = 0, in_errCnt = 1\<rparr>"
  let ?l = "\<lparr>line_text = ''.nosuch'', line_seenInterrupt = False, line_malloc_ok = True\<rparr>"
  let ?rest = "[\<lparr>line_text = ''.help'', line_seenInterrupt = False, line_malloc_ok = True\<rparr>]"
  let ?q = "\<lparr>line_text = ''select x;'', line_seenInterrupt = False, line_malloc_ok = True\<rparr>"
  let ?rest2 = "[\<lparr>line_text = ''select 1;'', line_seenInterrupt = False, line_malloc_ok = True\<rparr>]"
  have meta: "meta_command_returns ?env True ?s ?l 1 True"
    by (simp add: meta_command_returns_def first_byte_def)
  from bail_on_error_input_loop
    [where in_is_file = True and env = ?env and s = ?s and l = ?l and rc = 1 and w = True
       and rest = ?rest]
    meta
  show "process_input ?env True True (?l # ?rest) = Returned Bailed ?s' ?rest"
    by (simp add: process_input_def)
  have ws: "\<not> all_whitespace ''select x;''"
    by (simp add: all_whitespace.simps IsSpace_def)
  have ct: "\<not> is_command_terminator ''select x;''"
    by (simp add: is_command_terminator_def first_byte_def IsSpace_def)
  have stmt: "statement_runs ?env True ?s ?q ''select x;'' True True"
    using ws ct
    by (simp add: statement_runs_def first_byte_def grow_statement_def IsSpace_def
        contains_semicolon_def strlen30_def)
  from bail_on_error_input_loop
    [where in_is_file = True and env = ?env and s = ?s and l = ?q and q = "''select x;''"
       and w = True and rest = ?rest2]
    stmt
  show "process_input ?env True True (?q # ?rest2) = Returned Bailed ?s' ?rest2"
    by (simp add: process_input_def)
  let ?envi = "\<lparr>stdin_is_interactive = True, bail_on_error = (\<lambda>w. w),
      sqlite3_complete = (\<lambda>z. True),
      run_meta = (\<lambda>z w. Some (1, w)), run_sql = (\<lambda>z w. Some (True, w))\<rparr>
      :: bool input_env"
  have mi: "meta_command_returns ?envi False ?s ?l 1 True"
    by (simp add: meta_command_returns_def first_byte_def)
  have si: "statement_runs ?envi False ?s' ?q ''select x;'' True True"
    using ws ct
    by (simp add: statement_runs_def first_byte_def grow_statement_def IsSpace_def
        contains_semicolon_def strlen30_def)
  show "process_input ?envi False True [?l, ?q]
     = Returned End_of_input \<lparr>in_world = True, in_zSql = None, in_nSql = 0, in_errCnt = 2\<rparr> []"
    using process_line_meta [OF mi] process_line_statement [OF si]
    by (simp add: process_input_def process_input_loop.simps)
qed


subsection \<open>The result of a statement after \<^verbatim>\<open>Finalize\<close>\<close>

lemma exec_statement_rc:
  "ex_rc (exec_statement e xCallback pzErrMsg zSql stmt st) =
     (if fst (step_phase e (ex_log st) xCallback stmt
               (map_option (\<lambda>p. p\<lparr>pStmt := Some (stmt_handle stmt), cnt := 0\<rparr>) (ex_pArg st)))
         = SQLITE_NOMEM
      then SQLITE_NOMEM else Finalize stmt)"
  by (simp add: exec_statement_def Let_def split: prod.split)

lemma exec_statement_log: "ex_log (exec_statement e xCallback pzErrMsg zSql stmt st) = ex_log st"
  by (simp add: exec_statement_def Let_def split: prod.split)

lemma exec_statement_errmsg_eq:
  "ex_errmsg (exec_statement e xCallback pzErrMsg zSql stmt st) =
     (if ex_rc (exec_statement e xCallback pzErrMsg zSql stmt st) \<noteq> SQLITE_OK \<and> pzErrMsg
      then Some (sqlite3_errmsg e (ex_log st)) else ex_errmsg st)"
  by (simp add: exec_statement_def Let_def split: prod.split)

lemma exec_statement_errmsg:
  "ex_rc (exec_statement e xCallback pzErrMsg zSql stmt st) \<noteq> SQLITE_OK \<Longrightarrow> pzErrMsg \<Longrightarrow>
   ex_errmsg (exec_statement e xCallback pzErrMsg zSql stmt st) = Some (sqlite3_errmsg e (ex_log st))"
  by (subst exec_statement_errmsg_eq) simp

lemma shell_exec_loop_stops: "ex_rc st \<noteq> SQLITE_OK \<Longrightarrow> shell_exec_loop e xCallback pzErrMsg zSql st = st"
  by (subst shell_exec_loop.simps) auto

text \<open>
  C4: take any statement that the pipeline has prepared (\<open>zSql\<close> not empty, no error so
  far, \<^verbatim>\<open>Prepare_v2\<close> answers \<open>SQLITE_OK\<close> and a statement). The result of the statement after
  \<^verbatim>\<open>Finalize\<close> is \<open>SQLITE_NOMEM\<close> when stepping recorded \<open>SQLITE_NOMEM\<close>, and the result of
  \<^verbatim>\<open>Finalize\<close> otherwise. When that result is not \<open>SQLITE_OK\<close>, \<^verbatim>\<open>shell_exec\<close> ends with the
  state this statement left: it returns that result, nothing of the remaining text is
  handed to the engine (the log ends with this statement's text), and the engine's error
  message is stored through \<open>pzErrMsg\<close> when the caller passed one.
\<close>

theorem finalize_result_reported:
  assumes "zSql \<noteq> []" and "ex_rc st = SQLITE_OK"
    and "Prepare_v2 e (ex_log st) zSql = (SQLITE_OK, Some stmt, k)"
  shows "let st1 = st\<lparr>ex_rc := SQLITE_OK, ex_log := ex_log st @ [Db_prepare zSql]\<rparr>;
             stepped = fst (step_phase e (ex_log st1) xCallback stmt
               (map_option (\<lambda>p. p\<lparr>pStmt := Some (stmt_handle stmt), cnt := 0\<rparr>) (ex_pArg st1)));
             st2 = exec_statement e xCallback pzErrMsg zSql stmt st1
         in (stepped = SQLITE_NOMEM \<longrightarrow> ex_rc st2 = SQLITE_NOMEM)
          \<and> (stepped \<noteq> SQLITE_NOMEM \<longrightarrow> ex_rc st2 = Finalize stmt)
          \<and> (ex_rc st2 \<noteq> SQLITE_OK \<longrightarrow>
                shell_exec_loop e xCallback pzErrMsg zSql st = st2
              \<and> ex_log st2 = ex_log st @ [Db_prepare zSql]
              \<and> (pzErrMsg \<longrightarrow> ex_errmsg st2 = Some (sqlite3_errmsg e (ex_log st @ [Db_prepare zSql]))))"
proof -
  define st1 where "st1 = st\<lparr>ex_rc := SQLITE_OK, ex_log := ex_log st @ [Db_prepare zSql]\<rparr>"
  define st2 where "st2 = exec_statement e xCallback pzErrMsg zSql stmt st1"
  have step: "shell_exec_step e xCallback pzErrMsg zSql st =
      (if ex_rc st2 = SQLITE_OK then dropWhile IsSpace (drop (Suc k) zSql) else zSql, st2)"
    using assms(3) by (simp add: shell_exec_step_def Let_def st1_def st2_def)
  have halt: "shell_exec_loop e xCallback pzErrMsg zSql st = st2" if "ex_rc st2 \<noteq> SQLITE_OK"
  proof -
    have "shell_exec_loop e xCallback pzErrMsg zSql st = shell_exec_loop e xCallback pzErrMsg zSql st2"
      using assms(1,2) that by (subst shell_exec_loop.simps) (simp add: step)
    also have "\<dots> = st2" using that by (rule shell_exec_loop_stops)
    finally show ?thesis .
  qed
  have log: "ex_log st2 = ex_log st @ [Db_prepare zSql]"
    by (simp add: st2_def exec_statement_log st1_def)
  have msg: "ex_errmsg st2 = Some (sqlite3_errmsg e (ex_log st @ [Db_prepare zSql]))"
    if "ex_rc st2 \<noteq> SQLITE_OK" "pzErrMsg"
    using that exec_statement_errmsg [of e xCallback pzErrMsg zSql stmt st1]
    by (simp add: st2_def st1_def)
  have rc: "ex_rc st2 =
     (if fst (step_phase e (ex_log st1) xCallback stmt
               (map_option (\<lambda>p. p\<lparr>pStmt := Some (stmt_handle stmt), cnt := 0\<rparr>) (ex_pArg st1)))
         = SQLITE_NOMEM
      then SQLITE_NOMEM else Finalize stmt)"
    unfolding st2_def by (rule exec_statement_rc)
  show ?thesis
    unfolding Let_def st1_def [symmetric] st2_def [symmetric]
    using halt log msg rc by auto
qed

theorem finalize_result_reported_witness:
  "shell_exec
     \<lparr>sqlite3_prepare = (\<lambda>log z. (0, None)),
      Prepare_v2 = (\<lambda>log z. (0, Some \<lparr>stmt_handle = 1, sqlite3_sql = None, explain_text = None,
         sqlite3_column_count = 1, columnName = [Some ''a''],
         Step = [(100, [(Some ''1'', 1)])], Finalize = 0\<rparr>, 0)),
      sqlite3_exec = (\<lambda>log z. ([], 0, None)),
      sqlite3_errmsg = (\<lambda>log. ''out of memory''),
      sqlite3_malloc_ok = (\<lambda>log. False),
      stats_text = (\<lambda>log. [])\<rparr>
     [] ''ab'' (Some (\<lambda>pArg azVals azCols aiTypes. (0, pArg, []))) None True
   = \<lparr>ex_rc = 7, ex_pArg = None, ex_log = [Db_prepare ''ab''], ex_out = [],
      ex_errmsg = Some ''out of memory''\<rparr>"
  using finalize_result_reported
    [where zSql = "''ab''"
       and st = "\<lparr>ex_rc = SQLITE_OK, ex_pArg = None, ex_log = [], ex_out = [], ex_errmsg = None\<rparr>"
       and e = "\<lparr>sqlite3_prepare = (\<lambda>log z. (0, None)),
          Prepare_v2 = (\<lambda>log z. (0, Some \<lparr>stmt_handle = 1, sqlite3_sql = None,
             explain_text = None, sqlite3_column_count = 1, columnName = [Some ''a''],
             Step = [(100, [(Some ''1'', 1)])], Finalize = 0\<rparr>, 0)),
          sqlite3_exec = (\<lambda>log z. ([], 0, None)),
          sqlite3_errmsg = (\<lambda>log. ''out of memory''),
          sqlite3_malloc_ok = (\<lambda>log. False),
          stats_text = (\<lambda>log. [])\<rparr>"
       and stmt = "\<lparr>stmt_handle = 1, sqlite3_sql = None, explain_text = None,
             sqlite3_column_count = 1, columnName = [Some ''a''],
             Step = [(100, [(Some ''1'', 1)])], Finalize = 0\<rparr>"
       and k = 0
       and xCallback = "Some (\<lambda>pArg azVals azCols aiTypes. (0, pArg, []))"
       and pzErrMsg = True]
  by (simp add: shell_exec_def Let_def step_phase_def exec_statement_def
      SQLITE_OK_def SQLITE_NOMEM_def SQLITE_ROW_def)


subsection \<open>The retry after a corruption error\<close>


lemma exec_texts_simps [simp]:
  "exec_texts [] = []"
  "exec_texts (Db_exec q # log) = q # exec_texts log"
  "exec_texts (Db_prepare q # log) = exec_texts log"
  "exec_texts (Db_prepare_NULL # log) = exec_texts log"
  by (simp_all add: exec_texts_def)

lemma exec_texts_prepare_call [simp]: "exec_texts (prepare_call z # log) = exec_texts log"
  by (simp add: prepare_call_def split: option.split)
















subsection \<open>Column widths in column mode\<close>

lemma header_loop_fst_Cons:
  "fst (header_loop azArg azCol (j # js) p) =
     fst (header_loop azArg azCol js
       (if j < ArraySize_width
        then p\<lparr>actualWidth := (actualWidth p)[j := first_row_width p azArg azCol j]\<rparr>
        else p))"
  by (simp add: Let_def split: prod.split)

lemma header_loop_frame:
  "colWidth (fst (header_loop azArg azCol is p)) = colWidth p"
  "nullvalue (fst (header_loop azArg azCol is p)) = nullvalue p"
  "showHeader (fst (header_loop azArg azCol is p)) = showHeader p"
  "cnt (fst (header_loop azArg azCol is p)) = cnt p"
  "mode (fst (header_loop azArg azCol is p)) = mode p"
  "length (actualWidth (fst (header_loop azArg azCol is p))) = length (actualWidth p)"
  by (induction "is" arbitrary: p)
     (simp_all add: header_loop_fst_Cons del: header_loop.simps(2))

lemma first_row_width_cong:
  assumes "colWidth p = colWidth q" "nullvalue p = nullvalue q"
  shows "first_row_width p azArg azCol i = first_row_width q azArg azCol i"
  unfolding first_row_width_def assms by (rule refl)

lemma header_loop_other:
  "i \<notin> set is \<Longrightarrow> actualWidth (fst (header_loop azArg azCol is p)) ! i = actualWidth p ! i"
proof (induction "is" arbitrary: p)
  case Nil
  then show ?case by simp
next
  case (Cons j js)
  then have "i \<noteq> j" "i \<notin> set js" by simp_all
  then show ?case
    by (simp add: header_loop_fst_Cons Cons.IH del: header_loop.simps(2))
qed

lemma header_loop_width:
  "distinct is \<Longrightarrow> i \<in> set is \<Longrightarrow> i < ArraySize_width \<Longrightarrow>
   length (actualWidth p) = ArraySize_width \<Longrightarrow>
   actualWidth (fst (header_loop azArg azCol is p)) ! i = first_row_width p azArg azCol i"
proof (induction "is" arbitrary: p)
  case Nil
  then show ?case by simp
next
  case (Cons j js)
  let ?w = "first_row_width p azArg azCol j"
  let ?p1 = "if j < ArraySize_width then p\<lparr>actualWidth := (actualWidth p)[j := ?w]\<rparr> else p"
  have step: "fst (header_loop azArg azCol (j # js) p) = fst (header_loop azArg azCol js ?p1)"
    by (rule header_loop_fst_Cons)
  have same: "first_row_width ?p1 azArg azCol i = first_row_width p azArg azCol i"
    by (rule first_row_width_cong) simp_all
  show ?case
  proof (cases "i = j")
    case True
    with Cons.prems have "i \<notin> set js" by simp
    then have "actualWidth (fst (header_loop azArg azCol js ?p1)) ! i = actualWidth ?p1 ! i"
      by (rule header_loop_other)
    with True Cons.prems step show ?thesis by simp
  next
    case False
    with Cons.prems have "distinct js" "i \<in> set js" by simp_all
    moreover have "length (actualWidth ?p1) = ArraySize_width"
      using Cons.prems by simp
    ultimately have "actualWidth (fst (header_loop azArg azCol js ?p1)) ! i
        = first_row_width ?p1 azArg azCol i"
      using Cons.prems(3) by (intro Cons.IH)
    with step same show ?thesis by simp
  qed
qed

lemma first_row_width_auto:
  "(i < ArraySize_width \<longrightarrow> colWidth p ! i = 0) \<Longrightarrow>
   first_row_width p azArg azCol i =
     max 10 (max (strlen30 (case arr_get azCol i of None \<Rightarrow> [] | Some c \<Rightarrow> c))
                 (strlen30 (case azArg of None \<Rightarrow> nullvalue p
                    | Some a \<Rightarrow> (case arr_get a i of None \<Rightarrow> nullvalue p | Some v \<Rightarrow> v))))"
  by (simp add: first_row_width_def Let_def max_def)

lemma first_call_width:
  assumes "length (actualWidth p) = ArraySize_width" "cnt p = 0" "i < length azCol"
    "i < ArraySize_width"
  shows "actualWidth (fst (shell_callback_column p azArg azCol)) ! i
     = first_row_width p azArg azCol i"
proof -
  let ?p0 = "p\<lparr>cnt := cnt p + 1\<rparr>"
  have "actualWidth (fst (shell_callback_column p azArg azCol))
      = actualWidth (fst (header_loop azArg azCol [0..<length azCol] ?p0))"
    using assms(2) by (simp add: shell_callback_column_def Let_def split: prod.split option.split)
  moreover have "actualWidth (fst (header_loop azArg azCol [0..<length azCol] ?p0)) ! i
      = first_row_width ?p0 azArg azCol i"
    using assms by (intro header_loop_width) simp_all
  moreover have "first_row_width ?p0 azArg azCol i = first_row_width p azArg azCol i"
    by (rule first_row_width_cong) simp_all
  ultimately show ?thesis by simp
qed

lemma later_call:
  "cnt p \<noteq> 0 \<Longrightarrow>
   shell_callback_column p (Some a) azCol =
     (p\<lparr>cnt := cnt p + 1\<rparr>,
      concat (map (data_cell (p\<lparr>cnt := cnt p + 1\<rparr>) (length azCol) a) [0..<length azCol]))"
  by (simp add: shell_callback_column_def Let_def)

lemma data_width_column:
  "mode q = MODE_Column \<Longrightarrow>
   data_width q a i = (if i < ArraySize_width then actualWidth q ! i else 10)"
  by (simp add: data_width_def Let_def split: option.split)

lemma printf_s_laid_out:
  "(if w < 0 then printf_s False (- w) (- w) h else printf_s True w w h)
     = laid_out w (case h of None \<Rightarrow> printf_null \<bar>w\<bar> | Some c \<Rightarrow> c)"
  by (cases h) (simp_all add: printf_s_def laid_out_def Let_def)

lemma header_loop_snd:
  "snd (header_loop azArg azCol is p) =
     (if showHeader p \<noteq> 0
      then concat (map (\<lambda>i. laid_out (first_row_width p azArg azCol i)
                 (case arr_get azCol i of
                    None \<Rightarrow> printf_null \<bar>first_row_width p azArg azCol i\<bar> | Some c \<Rightarrow> c)
               @ cell_end (length azCol) i) is)
      else [])"
proof (induction "is" arbitrary: p)
  case Nil
  then show ?case by simp
next
  case (Cons j js)
  let ?w = "first_row_width p azArg azCol j"
  let ?p1 = "if j < ArraySize_width then p\<lparr>actualWidth := (actualWidth p)[j := ?w]\<rparr> else p"
  have step: "snd (header_loop azArg azCol (j # js) p) =
      (if showHeader p \<noteq> 0
       then (if ?w < 0 then printf_s False (- ?w) (- ?w) (arr_get azCol j)
             else printf_s True ?w ?w (arr_get azCol j)) @ cell_end (length azCol) j
       else [])
      @ snd (header_loop azArg azCol js ?p1)"
    by (simp add: Let_def split: prod.split)
  have same: "first_row_width ?p1 azArg azCol i = first_row_width p azArg azCol i" for i
    by (rule first_row_width_cong) simp_all
  have sh: "showHeader ?p1 = showHeader p" by simp
  show ?case
    unfolding step Cons.IH [of ?p1] same sh printf_s_laid_out by simp
qed

lemma rule_cell_laid_out:
  "rule_cell q n j =
     laid_out \<bar>if j < ArraySize_width then actualWidth q ! j else 10\<bar> dashes @ cell_end n j"
  by (simp add: rule_cell_def rule_width_def Let_def printf_s_def laid_out_def)

lemma data_cell_laid_out:
  "mode q = MODE_Column \<Longrightarrow>
   data_cell q n a j =
     laid_out (if j < ArraySize_width then actualWidth q ! j else 10)
       (case arr_get a j of None \<Rightarrow> nullvalue q | Some v \<Rightarrow> v) @ cell_end n j"
  using printf_s_laid_out [of "if j < ArraySize_width then actualWidth q ! j else 10"
      "Some (case arr_get a j of None \<Rightarrow> nullvalue q | Some v \<Rightarrow> v)"]
  by (simp add: data_cell_def data_width_column Let_def)

lemma shell_callback_column_out:
  "snd (shell_callback_column p azArg azCol) =
     (if cnt p = 0
      then snd (header_loop azArg azCol [0..<length azCol] (p\<lparr>cnt := cnt p + 1\<rparr>))
           @ (if showHeader p \<noteq> 0
              then concat (map (rule_cell (fst (shell_callback_column p azArg azCol)) (length azCol))
                             [0..<length azCol])
              else [])
      else [])
     @ (case azArg of
          None \<Rightarrow> []
        | Some a \<Rightarrow> concat (map (data_cell (fst (shell_callback_column p azArg azCol))
                                  (length azCol) a) [0..<length azCol]))"
  by (simp add: shell_callback_column_def Let_def case_prod_beta header_loop_frame
      split: option.split)

text \<open>
  C5 (as stated): a column without a configured width, also one beyond the width table,
  gets the width max(10, header length, length of the first value) for the whole result
  set. Below, column 100 of a result with 101 columns has a header of 12 bytes and the
  first value \<open>1\<close>: the turn of the header loop for this column writes the header cell
  12 bytes wide, but the data cell of the column is written 10 bytes wide.
\<close>

theorem column_width_counterexample:
  "snd (header_loop (Some (replicate 101 (Some ''1'')))
          (replicate 100 (Some ''c'') @ [Some ''twelve_chars'']) [100]
          (main_init\<lparr>mode := MODE_Column, showHeader := 1\<rparr>))
     = ''twelve_chars'' @ [NL]
   \<and> data_cell (main_init\<lparr>mode := MODE_Column, showHeader := 1\<rparr>) 101
       (replicate 101 (Some ''1'')) 100
     = ''1         '' @ [NL]"
  by code_simp

text \<open>
  C5 (amended): in column mode, when the first row of a result set arrives (\<open>cnt = 0\<close>),
  the width stored for a column \<open>i\<close> below 100 whose configured width is 0 is
  max(10, length of the header name, length of the first row's rendered value); a later
  row (\<open>cnt \<noteq> 0\<close>) leaves the stored widths as they are. The text written is, on the
  first row and with headers on, the header cells and the cells of the rule under them,
  and then for a row the data cells. Every data cell of a column below 100 is laid out
  with the stored width \<open>W j\<close>, every rule cell with its absolute value, and every data
  cell and rule cell of a column at index 100 or beyond with the width 10, whatever its
  header and first value are; the header cell of a column is laid out with the width
  \<open>H j\<close> chosen on the first row, which for a column without a configured width, below 100
  or not, is the maximum above. (Lengths are those of \<^verbatim>\<open>strlen30\<close>.)
\<close>

theorem column_width_auto:
  assumes "length (actualWidth p) = ArraySize_width" and "mode p = MODE_Column"
  shows "(let n = length azCol;
              p' = fst (shell_callback_column p azArg azCol);
              out = snd (shell_callback_column p azArg azCol);
              W = (\<lambda>j. if j < ArraySize_width then actualWidth p' ! j else 10);
              H = (\<lambda>j. first_row_width p azArg azCol j)
          in (cnt p = 0 \<and> i < length azCol \<and> i < ArraySize_width \<and> colWidth p ! i = 0 \<longrightarrow>
                actualWidth p' ! i =
                  max 10 (max (strlen30 (case arr_get azCol i of None \<Rightarrow> [] | Some c \<Rightarrow> c))
                    (strlen30 (case azArg of None \<Rightarrow> nullvalue p
                       | Some a \<Rightarrow> (case arr_get a i of None \<Rightarrow> nullvalue p | Some v \<Rightarrow> v)))))
           \<and> ((i < ArraySize_width \<longrightarrow> colWidth p ! i = 0) \<longrightarrow>
                H i =
                  max 10 (max (strlen30 (case arr_get azCol i of None \<Rightarrow> [] | Some c \<Rightarrow> c))
                    (strlen30 (case azArg of None \<Rightarrow> nullvalue p
                       | Some a \<Rightarrow> (case arr_get a i of None \<Rightarrow> nullvalue p | Some v \<Rightarrow> v)))))
           \<and> (cnt p \<noteq> 0 \<longrightarrow> actualWidth p' = actualWidth p)
           \<and> cnt p' = cnt p + 1 \<and> mode p' = MODE_Column
           \<and> length (actualWidth p') = ArraySize_width
           \<and> out =
               (if cnt p = 0 \<and> showHeader p \<noteq> 0
                then concat (map (\<lambda>j. laid_out (H j)
                         (case arr_get azCol j of None \<Rightarrow> printf_null \<bar>H j\<bar> | Some c \<Rightarrow> c)
                       @ cell_end n j) [0..<n])
                   @ concat (map (\<lambda>j. laid_out \<bar>W j\<bar> dashes @ cell_end n j) [0..<n])
                else [])
               @ (case azArg of
                    None \<Rightarrow> []
                  | Some a \<Rightarrow>
                      concat (map (\<lambda>j. laid_out (W j)
                          (case arr_get a j of None \<Rightarrow> nullvalue p | Some v \<Rightarrow> v)
                        @ cell_end n j) [0..<n]))
           \<and> (\<forall>a. azArg = Some a \<longrightarrow>
                (\<exists>head. out = head @ concat (map (data_cell p' (length azCol) a) [0..<length azCol])
                   \<and> (cnt p \<noteq> 0 \<longrightarrow> head = [])))
           \<and> (\<forall>a j. data_width p' a j = (if j < ArraySize_width then actualWidth p' ! j else 10))
           \<and> (\<forall>j. ArraySize_width \<le> j \<longrightarrow> rule_width p' j = 10))"
proof -
  let ?n = "length azCol"
  let ?p0 = "p\<lparr>cnt := cnt p + 1\<rparr>"
  let ?h = "header_loop azArg azCol [0..<?n] ?p0"
  define p' where "p' = fst (shell_callback_column p azArg azCol)"
  define out where "out = snd (shell_callback_column p azArg azCol)"
  define W where "W = (\<lambda>j. if j < ArraySize_width then actualWidth p' ! j else 10)"
  define H where "H = (\<lambda>j. first_row_width p azArg azCol j)"
  have p'_eq: "p' = (if cnt p = 0 then fst ?h else ?p0)"
    by (simp add: p'_def shell_callback_column_def Let_def split: prod.split option.split)
  have frame: "cnt p' = cnt p + 1" "mode p' = mode p"
    "length (actualWidth p') = length (actualWidth p)" "nullvalue p' = nullvalue p"
    by (simp_all add: p'_eq header_loop_frame)
  have frozen: "actualWidth p' = actualWidth p" if "cnt p \<noteq> 0"
    using that by (simp add: p'_eq)
  have auto_w: "actualWidth p' ! i =
      max 10 (max (strlen30 (case arr_get azCol i of None \<Rightarrow> [] | Some c \<Rightarrow> c))
        (strlen30 (case azArg of None \<Rightarrow> nullvalue p
           | Some a \<Rightarrow> (case arr_get a i of None \<Rightarrow> nullvalue p | Some v \<Rightarrow> v))))"
    if "cnt p = 0" "i < ?n" "i < ArraySize_width" "colWidth p ! i = 0"
    using first_call_width [OF assms(1) that(1,2,3), of azArg]
      first_row_width_auto [of i p azArg azCol] that(4)
    by (simp add: p'_def)
  have auto_h: "H i =
      max 10 (max (strlen30 (case arr_get azCol i of None \<Rightarrow> [] | Some c \<Rightarrow> c))
        (strlen30 (case azArg of None \<Rightarrow> nullvalue p
           | Some a \<Rightarrow> (case arr_get a i of None \<Rightarrow> nullvalue p | Some v \<Rightarrow> v))))"
    if "i < ArraySize_width \<longrightarrow> colWidth p ! i = 0"
    unfolding H_def using that by (rule first_row_width_auto)
  have cells: "\<exists>head. out = head @ concat (map (data_cell p' ?n a) [0..<?n])
      \<and> (cnt p \<noteq> 0 \<longrightarrow> head = [])" if "azArg = Some a" for a
    using that
    by (auto simp: out_def p'_def shell_callback_column_def Let_def split: prod.split)
  have dw: "data_width p' a j = (if j < ArraySize_width then actualWidth p' ! j else 10)" for a j
    using frame(2) assms(2) by (intro data_width_column) simp
  have rw: "rule_width p' j = 10" if "ArraySize_width \<le> j" for j
    using that by (simp add: rule_width_def)
  have col: "mode p' = MODE_Column" using frame(2) assms(2) by simp
  have hdr: "snd ?h =
      (if showHeader p \<noteq> 0
       then concat (map (\<lambda>j. laid_out (H j)
                 (case arr_get azCol j of None \<Rightarrow> printf_null \<bar>H j\<bar> | Some c \<Rightarrow> c)
               @ cell_end ?n j) [0..<?n])
       else [])"
  proof -
    have same: "first_row_width ?p0 azArg azCol j = H j" for j
      unfolding H_def by (rule first_row_width_cong) simp_all
    show ?thesis
      unfolding header_loop_snd same by simp
  qed
  have rule: "rule_cell p' ?n j = laid_out \<bar>W j\<bar> dashes @ cell_end ?n j" for j
    unfolding W_def by (rule rule_cell_laid_out)
  have data: "data_cell p' ?n a j =
      laid_out (W j) (case arr_get a j of None \<Rightarrow> nullvalue p | Some v \<Rightarrow> v) @ cell_end ?n j"
    for a j
    by (simp add: W_def frame(4) data_cell_laid_out [OF col] cong: option.case_cong)
  have out_eq: "out =
       (if cnt p = 0 \<and> showHeader p \<noteq> 0
        then concat (map (\<lambda>j. laid_out (H j)
                 (case arr_get azCol j of None \<Rightarrow> printf_null \<bar>H j\<bar> | Some c \<Rightarrow> c)
               @ cell_end ?n j) [0..<?n])
           @ concat (map (\<lambda>j. laid_out \<bar>W j\<bar> dashes @ cell_end ?n j) [0..<?n])
        else [])
       @ (case azArg of
            None \<Rightarrow> []
          | Some a \<Rightarrow>
              concat (map (\<lambda>j. laid_out (W j)
                  (case arr_get a j of None \<Rightarrow> nullvalue p | Some v \<Rightarrow> v)
                @ cell_end ?n j) [0..<?n]))"
    unfolding out_def shell_callback_column_out p'_def [symmetric] hdr rule data
    by (simp split: option.split)
  show ?thesis
    unfolding Let_def p'_def [symmetric] out_def [symmetric]
    unfolding W_def [symmetric] H_def [symmetric]
    apply (intro conjI)
            apply (intro impI, elim conjE, erule (3) auto_w)
           apply (intro impI, erule auto_h)
          apply (intro impI, erule frozen)
         apply (rule frame(1))
        apply (rule col)
       apply (simp add: frame(3) assms(1))
      apply (rule out_eq [unfolded W_def])
     apply (intro allI impI, erule cells)
    apply (intro allI, rule dw)
    apply (intro allI impI, erule rw)
    done
qed

theorem column_width_auto_witness:
  "shell_callback_column (main_init\<lparr>mode := MODE_Column, showHeader := 1\<rparr>)
     (Some [Some ''4'']) [Some ''id'']
   = ((main_init\<lparr>mode := MODE_Column, showHeader := 1\<rparr>)
        \<lparr>cnt := 1, actualWidth := (replicate 100 0)[0 := 10]\<rparr>,
      ''id        '' @ [NL] @ ''----------'' @ [NL] @ ''4         '' @ [NL])
   \<and> actualWidth (fst (shell_callback_column (main_init\<lparr>mode := MODE_Column, showHeader := 1\<rparr>)
        (Some [Some ''4'']) [Some ''id''])) ! 0 = max 10 (max 2 1)"
proof -
  let ?p = "main_init\<lparr>mode := MODE_Column, showHeader := 1\<rparr>"
  have len: "length (actualWidth ?p) = ArraySize_width"
    by (simp add: main_init_def ArraySize_width_def)
  have col: "mode ?p = MODE_Column" by simp
  have run: "shell_callback_column ?p (Some [Some ''4'']) [Some ''id'']
     = (?p\<lparr>cnt := 1, actualWidth := (replicate 100 0)[0 := 10]\<rparr>,
        ''id        '' @ [NL] @ ''----------'' @ [NL] @ ''4         '' @ [NL])"
    by code_simp
  from column_width_auto [OF len col, where i = 0 and azCol = "[Some ''id'']"
      and azArg = "Some [Some ''4'']", unfolded Let_def, THEN conjunct1]
  have "actualWidth (fst (shell_callback_column ?p (Some [Some ''4'']) [Some ''id''])) ! 0
      = max 10 (max 2 1)"
    by (simp add: main_init_def ArraySize_width_def arr_get_def strlen30_def)
  with run show ?thesis by simp
qed

subsection \<open>Quoting in csv mode\<close>

lemma needCsvQuote_blocks:
  "needCsvQuote = replicate 33 1 @ [0, 1, 0, 0, 0, 0, 1] @ replicate 87 0 @ replicate 129 1"
  by code_simp

lemma needCsvQuote_nth:
  assumes "n < 256"
  shows "needCsvQuote ! n \<noteq> 0 \<longleftrightarrow> n \<le> 32 \<or> n = 34 \<or> n = 39 \<or> 127 \<le> n"
proof -
  consider "n < 33" | "33 \<le> n" "n < 40" | "40 \<le> n" "n < 127" | "127 \<le> n"
    by linarith
  then show ?thesis
  proof cases
    case 1
    then show ?thesis by (simp add: needCsvQuote_blocks nth_append)
  next
    case 2
    then have "n = 33 \<or> n = 34 \<or> n = 35 \<or> n = 36 \<or> n = 37 \<or> n = 38 \<or> n = 39" by linarith
    then show ?thesis by (auto simp: needCsvQuote_blocks nth_append)
  next
    case 3
    then show ?thesis by (simp add: needCsvQuote_blocks nth_append nth_Cons')
  next
    case 4
    with assms show ?thesis by (simp add: needCsvQuote_blocks nth_append nth_Cons')
  qed
qed

lemma char_is_DQUOTE: "c = DQUOTE \<longleftrightarrow> (of_char c :: nat) = 34"
proof -
  have "(of_char c :: nat) = 34 \<longleftrightarrow> (of_char c :: nat) = of_char DQUOTE" by simp
  also have "\<dots> \<longleftrightarrow> c = DQUOTE" by (rule of_char_eq_iff)
  finally show ?thesis by simp
qed

lemma char_is_SQUOTE: "c = SQUOTE \<longleftrightarrow> (of_char c :: nat) = 39"
proof -
  have "(of_char c :: nat) = 39 \<longleftrightarrow> (of_char c :: nat) = of_char SQUOTE" by simp
  also have "\<dots> \<longleftrightarrow> c = SQUOTE" by (rule of_char_eq_iff)
  finally show ?thesis by simp
qed

lemma needCsvQuote_char:
  "needCsvQuote ! (of_char c) \<noteq> 0 \<longleftrightarrow>
     (of_char c :: nat) \<le> 32 \<or> c = DQUOTE \<or> c = SQUOTE \<or> 127 \<le> (of_char c :: nat)"
  using needCsvQuote_nth [of "of_char c"]
  by (simp add: char_is_DQUOTE char_is_SQUOTE)

lemma csv_scan_result:
  "csv_scan sep z rest i =
     (if \<exists>c\<in>set rest. needCsvQuote ! (of_char c) \<noteq> 0
            \<or> (c = first_byte sep \<and> (strlen30 sep = 1 \<or> memcmp_eq z sep (strlen30 sep)))
      then 0 else i + length rest)"
  by (induction rest arbitrary: i) auto

lemma short_separator_trigger:
  assumes "length sep \<le> 1"
  shows "(needCsvQuote ! (of_char c) \<noteq> 0
            \<or> (c = first_byte sep \<and> (strlen30 sep = 1 \<or> memcmp_eq z sep (strlen30 sep))))
         \<longleftrightarrow> (needCsvQuote ! (of_char c) \<noteq> 0 \<or> [c] = sep)"
proof (cases sep)
  case Nil
  have "needCsvQuote ! (of_char NUL) \<noteq> 0"
    using needCsvQuote_nth [of 0] by simp
  with Nil show ?thesis
    by (auto simp: first_byte_def strlen30_def memcmp_eq_def)
next
  case (Cons s rest)
  with assms have "rest = []" by simp
  with Cons show ?thesis
    by (auto simp: first_byte_def strlen30_def)
qed

lemma csv_double_quotes_concat:
  "csv_double_quotes z = concat (map (\<lambda>c. if c = DQUOTE then [DQUOTE, DQUOTE] else [c]) z)"
  by (induction z) auto

text \<open>
  C2 (as stated): a value is wrapped in double quotes if and only if it contains the
  separator, a double quote, or a control or high-bit byte. The value \<open>a b\<close> contains
  none of them (the separator is a comma), and it is written in quotes: the table
  \<^verbatim>\<open>needCsvQuote\<close> also flags the space.
\<close>

theorem csv_quoting_counterexample:
  "\<not> spec_csv_needs_quote '','' ''a b''
   \<and> output_csv (main_init\<lparr>mode := MODE_Csv, separator := '',''\<rparr>) (Some ''a b'') False
       = [DQUOTE] @ ''a b'' @ [DQUOTE]"
  by code_simp

text \<open>
  C2 (amended): for every non-NULL value rendered by \<^verbatim>\<open>output_csv\<close> while the separator is
  at most one byte long, the value is wrapped in double quotes, with every embedded
  double quote written twice, if and only if it is empty or contains a byte that
  \<^verbatim>\<open>needCsvQuote\<close> flags or the separator byte; otherwise it is written as it is. The
  table flags exactly the bytes up to 32 (the control bytes and the space), the double
  quote, the single quote, and the bytes from 127 on (DEL and the high-bit bytes).
\<close>

theorem csv_quoting:
  assumes "length (separator p) \<le> 1"
  shows "output_csv p (Some z) bSep =
           (if z = [] \<or> (\<exists>c\<in>set z. needCsvQuote ! (of_char c) \<noteq> 0 \<or> [c] = separator p)
            then [DQUOTE] @ concat (map (\<lambda>c. if c = DQUOTE then [DQUOTE, DQUOTE] else [c]) z)
                 @ [DQUOTE]
            else z)
           @ (if bSep then separator p else [])
       \<and> (\<forall>c. needCsvQuote ! (of_char c) \<noteq> 0 \<longleftrightarrow>
             (of_char c :: nat) \<le> 32 \<or> c = DQUOTE \<or> c = SQUOTE \<or> 127 \<le> (of_char c :: nat))"
proof -
  have scan: "csv_scan (separator p) z z 0 = 0 \<longleftrightarrow>
      z = [] \<or> (\<exists>c\<in>set z. needCsvQuote ! (of_char c) \<noteq> 0 \<or> [c] = separator p)"
    unfolding csv_scan_result short_separator_trigger [OF assms] by auto
  show ?thesis
    unfolding output_csv_def
    by (simp only: scan csv_double_quotes_concat needCsvQuote_char option.case) simp
qed

theorem csv_quoting_witness:
  "output_csv (main_init\<lparr>mode := MODE_Csv, separator := '',''\<rparr>) (Some ''a,b'') True
     = [DQUOTE] @ ''a,b'' @ [DQUOTE] @ '',''
   \<and> output_csv (main_init\<lparr>mode := MODE_Csv, separator := '',''\<rparr>) (Some ''ab'') False = ''ab''
   \<and> output_csv (main_init\<lparr>mode := MODE_Csv, separator := '',''\<rparr>) (Some []) False
     = [DQUOTE, DQUOTE]"
proof -
  let ?p = "main_init\<lparr>mode := MODE_Csv, separator := '',''\<rparr>"
  have short: "length (separator ?p) \<le> 1" by simp
  from csv_quoting [OF short, of "''a,b''" True] csv_quoting [OF short, of "''ab''" False]
    csv_quoting [OF short, of "[]" False]
  show ?thesis by (simp add: needCsvQuote_char)
qed


subsection \<open>The capacity of the token array\<close>

lemma azArg_store_length:
  "azArg_store azArg z = Inr azArg' \<Longrightarrow> length azArg' = Suc (length azArg) \<and> length azArg < ArraySize_azArg"
  by (auto simp: azArg_store_def split: if_splits)

lemma azArg_store_no_overflow:
  "length azArg < ArraySize_azArg \<Longrightarrow> azArg_store azArg z \<noteq> Inl TokenOverflow"
  by (simp add: azArg_store_def)

lemma scan_while_fault: "scan_while buf cond i = Inl f \<Longrightarrow> f = Overread"
proof (induction buf cond i rule: scan_while.induct)
  case (1 buf cond i)
  from "1.prems" "1.IH" show ?case
    by (subst (asm) scan_while.simps) (auto simp: rd_def split: sum.splits if_splits)
qed

lemma rb_escape_fault: "rb_escape buf i = Inl f \<Longrightarrow> f = Overread"
  by (auto simp: rb_escape_def rd_def Let_def split: sum.splits if_splits)

lemma rb_loop_fault: "rb_loop buf i j = Inl f \<Longrightarrow> f = Overread"
proof (induction buf i j rule: rb_loop.induct)
  case (1 buf i j)
  from "1.prems" "1.IH" show ?case
    by (subst (asm) rb_loop.simps)
       (auto simp: rd_def dest: rb_escape_fault split: sum.splits if_splits prod.splits)
qed

lemma next_token_fault:
  "length azArg < ArraySize_azArg \<Longrightarrow> next_token buf i azArg = Inl f \<Longrightarrow> f = Overread"
  unfolding next_token_def resolve_backslashes_def
  by (auto simp: Let_def rd_def azArg_store_def
      dest: scan_while_fault rb_loop_fault split: sum.splits if_splits prod.splits)

lemma next_token_length:
  "next_token buf i azArg = Inr (Some (buf', i', azArg')) \<Longrightarrow>
   length azArg' = Suc (length azArg) \<and> length azArg < ArraySize_azArg"
  unfolding next_token_def
  by (auto simp: Let_def dest!: azArg_store_length split: sum.splits if_splits prod.splits)

lemma tok_loop_no_overflow:
  "length azArg \<le> ArraySize_azArg \<Longrightarrow> tok_loop buf i azArg \<noteq> Inl TokenOverflow"
proof (induction buf i azArg rule: tok_loop.induct)
  case (1 buf i azArg)
  show ?case
  proof (cases "rd buf i")
    case (Inl f)
    then show ?thesis
      by (subst tok_loop.simps) (auto simp: rd_def split: if_splits)
  next
    case (Inr c)
    show ?thesis
    proof (cases "c \<noteq> NUL \<and> length azArg < ArraySize_azArg")
      case False
      with Inr show ?thesis by (subst tok_loop.simps) auto
    next
      case True
      show ?thesis
      proof (cases "next_token buf i azArg")
        case (Inl f)
        with True have "f = Overread" by (auto dest: next_token_fault)
        with Inr True Inl show ?thesis by (subst tok_loop.simps) simp
      next
        case nt: (Inr r)
        show ?thesis
        proof (cases r)
          case None
          with Inr True nt show ?thesis by (subst tok_loop.simps) simp
        next
          case (Some t)
          obtain buf' i' azArg' where t: "t = (buf', i', azArg')" by (cases t)
          with nt Some have nt': "next_token buf i azArg = Inr (Some (buf', i', azArg'))" by simp
          then have "length azArg' \<le> ArraySize_azArg"
            by (auto dest!: next_token_length)
          then have "tok_loop buf' i' azArg' \<noteq> Inl TokenOverflow"
            using "1.IH" [OF Inr True nt Some] t by simp
          with Inr True nt' show ?thesis by (subst tok_loop.simps) simp
        qed
      qed
    qed
  qed
qed

lemma tok_loop_bound:
  "length azArg \<le> ArraySize_azArg \<Longrightarrow> tok_loop buf i azArg = Inr (buf', azArg') \<Longrightarrow>
   length azArg' \<le> ArraySize_azArg"
proof (induction buf i azArg rule: tok_loop.induct)
  case (1 buf i azArg)
  show ?case
  proof (cases "rd buf i")
    case (Inl f)
    with "1.prems" show ?thesis
      by (subst (asm) tok_loop.simps) simp
  next
    case (Inr c)
    show ?thesis
    proof (cases "c \<noteq> NUL \<and> length azArg < ArraySize_azArg")
      case False
      with Inr "1.prems" show ?thesis by (subst (asm) tok_loop.simps) auto
    next
      case True
      show ?thesis
      proof (cases "next_token buf i azArg")
        case (Inl f)
        with Inr True "1.prems" show ?thesis by (subst (asm) tok_loop.simps) simp
      next
        case nt: (Inr r)
        show ?thesis
        proof (cases r)
          case None
          with Inr True nt "1.prems" show ?thesis by (subst (asm) tok_loop.simps) simp
        next
          case (Some t)
          obtain b1 i1 a1 where t: "t = (b1, i1, a1)" by (cases t)
          with nt Some have nt': "next_token buf i azArg = Inr (Some (b1, i1, a1))" by simp
          then have len: "length a1 \<le> ArraySize_azArg"
            by (auto dest!: next_token_length)
          from Inr True nt' "1.prems"(2) have "tok_loop b1 i1 a1 = Inr (buf', azArg')"
            by (subst (asm) tok_loop.simps) simp
          with len show ?thesis
            using "1.IH" [OF Inr True nt Some] t by simp
        qed
      qed
    qed
  qed
qed

lemma tok_loop_full:
  "rd buf i = Inr c \<Longrightarrow> ArraySize_azArg \<le> length azArg \<Longrightarrow> tok_loop buf i azArg = Inr (buf, azArg)"
  by (subst tok_loop.simps) simp

text \<open>
  C9: tokenizing a meta-command line never stores a token outside \<^verbatim>\<open>azArg[50]\<close> and never
  yields more than 50 tokens; once 50 tokens are stored the loop is left with the buffer
  as it is, whatever the rest of the line holds from index \<open>i\<close> on.
\<close>

theorem token_array_bounded:
  "tokenize zLine \<noteq> Inl TokenOverflow
   \<and> (\<forall>ts. tokenize zLine = Inr ts \<longrightarrow> length ts \<le> ArraySize_azArg)
   \<and> (rd buf i = Inr c \<longrightarrow> length azArg = ArraySize_azArg \<longrightarrow>
        tok_loop buf i azArg = Inr (buf, azArg))"
proof (intro conjI allI impI)
  show "tokenize zLine \<noteq> Inl TokenOverflow"
    using tok_loop_no_overflow [of "[]" "zLine @ [NUL]" 1]
    by (auto simp: tokenize_def split: sum.splits)
next
  fix ts
  assume "tokenize zLine = Inr ts"
  then obtain b a where "tok_loop (zLine @ [NUL]) 1 [] = Inr (b, a)" "ts = map (cstr b) a"
    by (auto simp: tokenize_def split: sum.splits)
  with tok_loop_bound [of "[]" "zLine @ [NUL]" 1 b a]
  show "length ts \<le> ArraySize_azArg" by simp
next
  assume "rd buf i = Inr c" "length azArg = ArraySize_azArg"
  then show "tok_loop buf i azArg = Inr (buf, azArg)"
    by (intro tok_loop_full) simp_all
qed

theorem token_array_bounded_witness:
  "tokenize (''.'' @ concat (replicate 50 ''a '') @ ''ignored'') = Inr (replicate 50 ''a'')
   \<and> length (replicate 50 ''a'') \<le> ArraySize_azArg"
proof -
  have run: "tokenize (''.'' @ concat (replicate 50 ''a '') @ ''ignored'') = Inr (replicate 50 ''a'')"
    by code_simp
  with token_array_bounded [of "''.'' @ concat (replicate 50 ''a '') @ ''ignored''"]
  show ?thesis by blast
qed



subsection \<open>Escape resolution in unquoted and quoted tokens\<close>






























subsection \<open>The transaction of \<^verbatim>\<open>.import\<close>\<close>

lemma rows_stepped_append:
  "rows_stepped (xs @ ys) = rows_stepped xs + rows_stepped ys"
  by (simp add: rows_stepped_def)

lemma rows_stepped_Nil: "rows_stepped [] = 0"
  by (simp add: rows_stepped_def)

lemma import_row_calls_stepped:
  "rows_stepped (import_row_calls azCol) = 1"
  by (simp add: rows_stepped_def import_row_calls_def filter_map comp_def)

lemma import_row_calls_no_exec:
  "c \<in> set (import_row_calls azCol) \<Longrightarrow> \<not> is_exec c"
  by (auto simp: import_row_calls_def)

lemma line_calls_stepped: "rows_stepped (line_calls sep nCol zLine) = 1"
  by (simp add: line_calls_def import_row_calls_stepped)

lemma line_calls_no_exec: "c \<in> set (line_calls sep nCol zLine) \<Longrightarrow> \<not> is_exec c"
  by (simp add: line_calls_def import_row_calls_no_exec)

lemma lines_calls_stepped:
  "rows_stepped (concat (map (line_calls sep nCol) ls)) = length ls"
  by (induction ls) (simp_all add: rows_stepped_append line_calls_stepped rows_stepped_Nil)

lemma lines_calls_no_exec:
  "c \<in> set (concat (map (line_calls sep nCol) ls)) \<Longrightarrow> \<not> is_exec c"
  by (auto dest: line_calls_no_exec)

text \<open>One turn of the loop over the lines, for a line that is inserted.\<close>

lemma import_lines_Cons:
  "import_lines env sep nCol (zLine # rest) calls rc =
     (if line_fields sep nCol zLine \<noteq> nCol then (1, ''ROLLBACK'', calls)
      else if ie_Reset env (calls @ line_calls sep nCol zLine) \<noteq> SQLITE_OK
      then (1, ''ROLLBACK'', calls @ line_calls sep nCol zLine)
      else import_lines env sep nCol rest (calls @ line_calls sep nCol zLine)
             (ie_Reset env (calls @ line_calls sep nCol zLine)))"
  by (simp add: line_fields_def line_calls_def Let_def split: prod.split)

text \<open>The loop over a file of which every line is inserted, and then what is left.\<close>

lemma import_lines_through:
  assumes "\<forall>l1 l l2. good = l1 @ l # l2 \<longrightarrow>
      line_fields sep nCol l = nCol
      \<and> ie_Reset env (calls @ concat (map (line_calls sep nCol) (l1 @ [l]))) = SQLITE_OK"
  shows "import_lines env sep nCol (good @ later) calls rc =
     import_lines env sep nCol later (calls @ concat (map (line_calls sep nCol) good))
       (if good = [] then rc else SQLITE_OK)"
  using assms
proof (induction good arbitrary: calls rc)
  case Nil
  then show ?case by simp
next
  case (Cons zLine rest)
  from Cons.prems [rule_format, of "[]" zLine rest]
  have ok: "line_fields sep nCol zLine = nCol"
    "ie_Reset env (calls @ line_calls sep nCol zLine) = SQLITE_OK" by simp_all
  have "\<forall>l1 l l2. rest = l1 @ l # l2 \<longrightarrow>
      line_fields sep nCol l = nCol
      \<and> ie_Reset env ((calls @ line_calls sep nCol zLine)
           @ concat (map (line_calls sep nCol) (l1 @ [l]))) = SQLITE_OK"
  proof (intro allI impI)
    fix l1 l l2
    assume "rest = l1 @ l # l2"
    then have "zLine # rest = (zLine # l1) @ l # l2" by simp
    from Cons.prems [rule_format, OF this]
    show "line_fields sep nCol l = nCol
      \<and> ie_Reset env ((calls @ line_calls sep nCol zLine)
           @ concat (map (line_calls sep nCol) (l1 @ [l]))) = SQLITE_OK" by simp
  qed
  from Cons.IH [OF this, of SQLITE_OK] ok show ?case
    by (simp add: import_lines_Cons del: import_lines.simps(2))
qed

text \<open>The first line that is not inserted, or whose insert fails, ends the loop.\<close>

lemma import_lines_first_failure:
  assumes good: "\<forall>l1 l l2. good = l1 @ l # l2 \<longrightarrow>
      line_fields sep nCol l = nCol
      \<and> ie_Reset env (calls @ concat (map (line_calls sep nCol) (l1 @ [l]))) = SQLITE_OK"
    and bad: "line_fields sep nCol bad \<noteq> nCol
      \<or> ie_Reset env (calls @ concat (map (line_calls sep nCol) (good @ [bad]))) \<noteq> SQLITE_OK"
  shows "import_lines env sep nCol (good @ bad # later) calls rc =
     (1, ''ROLLBACK'',
      calls @ concat (map (line_calls sep nCol) good)
        @ (if line_fields sep nCol bad \<noteq> nCol then [] else line_calls sep nCol bad))"
  using bad
  by (auto simp: import_lines_through [OF good] import_lines_Cons simp del: import_lines.simps(2))

text \<open>Every file either has a first line that fails or is inserted as a whole.\<close>

lemma first_failure_exists:
  fixes ok :: "'a list \<Rightarrow> 'a \<Rightarrow> bool"
  shows "(\<forall>l1 l l2. ls = l1 @ l # l2 \<longrightarrow> ok l1 l)
    \<or> (\<exists>good bad later. ls = good @ bad # later \<and> \<not> ok good bad
          \<and> (\<forall>l1 l l2. good = l1 @ l # l2 \<longrightarrow> ok l1 l))"
proof (induction ls rule: rev_induct)
  case Nil
  then show ?case by simp
next
  case (snoc x xs)
  from snoc.IH show ?case
  proof (elim disjE exE conjE)
    assume all: "\<forall>l1 l l2. xs = l1 @ l # l2 \<longrightarrow> ok l1 l"
    show ?thesis
    proof (cases "ok xs x")
      case True
      have "ok l1 l" if "xs @ [x] = l1 @ l # l2" for l1 l l2
      proof (cases l2 rule: rev_cases)
        case Nil
        with that True show ?thesis by simp
      next
        case (snoc l2' y)
        with that have "xs = l1 @ l # l2'" by simp
        with all show ?thesis by blast
      qed
      then show ?thesis by blast
    next
      case False
      with all have "xs @ [x] = xs @ x # [] \<and> \<not> ok xs x
          \<and> (\<forall>l1 l l2. xs = l1 @ l # l2 \<longrightarrow> ok l1 l)" by simp
      then show ?thesis by blast
    qed
  next
    fix good bad later
    assume "xs = good @ bad # later" "\<not> ok good bad"
      "\<forall>l1 l l2. good = l1 @ l # l2 \<longrightarrow> ok l1 l"
    then have "xs @ [x] = good @ bad # (later @ [x]) \<and> \<not> ok good bad
          \<and> (\<forall>l1 l l2. good = l1 @ l # l2 \<longrightarrow> ok l1 l)" by simp
    then show ?thesis by blast
  qed
qed

text \<open>The loop as a whole: either every line is inserted and the loop ends with
  \<open>COMMIT\<close>, or it ends at the first line that fails, with \<open>ROLLBACK\<close> and the result 1.\<close>

lemma import_lines_cases:
  obtains (committed)
    "\<forall>l1 l l2. lines = l1 @ l # l2 \<longrightarrow>
       line_fields sep nCol l = nCol
       \<and> ie_Reset env (calls @ concat (map (line_calls sep nCol) (l1 @ [l]))) = SQLITE_OK"
    "import_lines env sep nCol lines calls rc =
       (if lines = [] then rc else SQLITE_OK, ''COMMIT'',
        calls @ concat (map (line_calls sep nCol) lines))"
  | (rolled_back) good bad later where
    "lines = good @ bad # later"
    "\<forall>l1 l l2. good = l1 @ l # l2 \<longrightarrow>
       line_fields sep nCol l = nCol
       \<and> ie_Reset env (calls @ concat (map (line_calls sep nCol) (l1 @ [l]))) = SQLITE_OK"
    "line_fields sep nCol bad \<noteq> nCol
       \<or> ie_Reset env (calls @ concat (map (line_calls sep nCol) (good @ [bad]))) \<noteq> SQLITE_OK"
    "import_lines env sep nCol lines calls rc =
       (1, ''ROLLBACK'',
        calls @ concat (map (line_calls sep nCol) good)
          @ (if line_fields sep nCol bad \<noteq> nCol then [] else line_calls sep nCol bad))"
proof -
  let ?ok = "\<lambda>l1 l. line_fields sep nCol l = nCol
       \<and> ie_Reset env (calls @ concat (map (line_calls sep nCol) (l1 @ [l]))) = SQLITE_OK"
  from first_failure_exists [of lines ?ok] show ?thesis
  proof (elim disjE exE conjE)
    assume all: "\<forall>l1 l l2. lines = l1 @ l # l2 \<longrightarrow> ?ok l1 l"
    from import_lines_through [OF all, of "[]" rc]
    have "import_lines env sep nCol lines calls rc =
       (if lines = [] then rc else SQLITE_OK, ''COMMIT'',
        calls @ concat (map (line_calls sep nCol) lines))" by simp
    with all show ?thesis by (rule committed)
  next
    fix good bad later
    assume l: "lines = good @ bad # later" and bad: "\<not> ?ok good bad"
      and good: "\<forall>l1 l l2. good = l1 @ l # l2 \<longrightarrow> ?ok l1 l"
    from bad have bad': "line_fields sep nCol bad \<noteq> nCol
       \<or> ie_Reset env (calls @ concat (map (line_calls sep nCol) (good @ [bad]))) \<noteq> SQLITE_OK"
      by blast
    from import_lines_first_failure [OF good bad', of later rc] l
    have "import_lines env sep nCol lines calls rc =
       (1, ''ROLLBACK'',
        calls @ concat (map (line_calls sep nCol) good)
          @ (if line_fields sep nCol bad \<noteq> nCol then [] else line_calls sep nCol bad))" by simp
    with l good bad' show ?thesis by (rule rolled_back)
  qed
qed

lemma earlier_line:
  assumes "good @ bad # later = l1 @ b # l2" "length l1 < length good"
  shows "\<exists>l2'. good = l1 @ b # l2'"
proof -
  from assms(1) obtain us where
    "(good = l1 @ us \<and> us @ bad # later = b # l2) \<or> (good @ us = l1 \<and> bad # later = us @ b # l2)"
    by (auto simp: append_eq_append_conv2)
  with assms(2) obtain us where us: "good = l1 @ us" "us @ bad # later = b # l2"
    by auto
  with assms(2) have "us \<noteq> []" by auto
  with us(2) obtain us' where "us = b # us'" by (cases us) auto
  with us(1) show ?thesis by simp
qed

lemma import_lines_facts:
  assumes run: "import_lines env sep nCol lines calls rc = (rc', zc, calls')"
  shows "\<exists>ins. calls' = calls @ ins \<and> (\<forall>c\<in>set ins. \<not> is_exec c)
     \<and> ((zc = ''COMMIT'' \<and> (if lines = [] then rc' = rc else rc' = SQLITE_OK)
          \<and> ins = concat (map (line_calls sep nCol) lines)
          \<and> rows_stepped ins = length lines
          \<and> (\<forall>l\<in>set lines. line_fields sep nCol l = nCol)
          \<and> (\<forall>l1 l l2. lines = l1 @ l # l2 \<longrightarrow>
                ie_Reset env (calls @ concat (map (line_calls sep nCol) (l1 @ [l]))) = SQLITE_OK))
        \<or> (zc = ''ROLLBACK'' \<and> rc' = 1))
     \<and> (\<forall>l1 bad l2. lines = l1 @ bad # l2 \<and> line_fields sep nCol bad \<noteq> nCol \<longrightarrow>
          zc = ''ROLLBACK'' \<and> rows_stepped ins \<le> length l1)
     \<and> (\<forall>l1 bad l2. lines = l1 @ bad # l2
            \<and> ie_Reset env (calls @ concat (map (line_calls sep nCol) (l1 @ [bad]))) \<noteq> SQLITE_OK \<longrightarrow>
          zc = ''ROLLBACK'' \<and> rows_stepped ins \<le> Suc (length l1))"
proof (cases rule: import_lines_cases [of lines sep nCol env calls rc])
  case committed
  let ?ins = "concat (map (line_calls sep nCol) lines)"
  from committed(2) run have r: "rc' = (if lines = [] then rc else SQLITE_OK)"
    "zc = ''COMMIT''" "calls' = calls @ ?ins" by simp_all
  have fields: "\<forall>l\<in>set lines. line_fields sep nCol l = nCol"
  proof
    fix l assume "l \<in> set lines"
    then obtain l1 l2 where "lines = l1 @ l # l2" by (auto simp: in_set_conv_decomp)
    with committed(1) show "line_fields sep nCol l = nCol" by blast
  qed
  from committed(1) have resets: "\<forall>l1 l l2. lines = l1 @ l # l2 \<longrightarrow>
      ie_Reset env (calls @ concat (map (line_calls sep nCol) (l1 @ [l]))) = SQLITE_OK"
    by blast
  have no1: "\<not> (lines = l1 @ bad # l2 \<and> line_fields sep nCol bad \<noteq> nCol)" for l1 bad l2
    using committed(1) by blast
  have no2: "\<not> (lines = l1 @ bad # l2
      \<and> ie_Reset env (calls @ concat (map (line_calls sep nCol) (l1 @ [bad]))) \<noteq> SQLITE_OK)"
    for l1 bad l2
    using committed(1) by blast
  from r fields resets no1 no2 show ?thesis
    by (intro exI [of _ ?ins]) (auto simp: lines_calls_stepped dest: line_calls_no_exec)
next
  case (rolled_back good bad later)
  let ?tail = "if line_fields sep nCol bad \<noteq> nCol then [] else line_calls sep nCol bad"
  let ?ins = "concat (map (line_calls sep nCol) good) @ ?tail"
  from rolled_back(4) run have r: "rc' = 1" "zc = ''ROLLBACK''" "calls' = calls @ ?ins"
    by simp_all
  have noexec: "\<forall>c\<in>set ?ins. \<not> is_exec c"
    by (auto dest: lines_calls_no_exec line_calls_no_exec)
  have stepped: "rows_stepped ?ins =
      length good + (if line_fields sep nCol bad \<noteq> nCol then 0 else 1)"
    by (simp add: rows_stepped_append lines_calls_stepped line_calls_stepped rows_stepped_Nil)
  have not_before: "length good \<le> length l1"
    if l: "lines = l1 @ b # l2"
      and b: "line_fields sep nCol b \<noteq> nCol
        \<or> ie_Reset env (calls @ concat (map (line_calls sep nCol) (l1 @ [b]))) \<noteq> SQLITE_OK"
    for l1 b l2
  proof (rule ccontr)
    assume "\<not> length good \<le> length l1"
    then have "length l1 < length good" by simp
    with l rolled_back(1) obtain l2' where "good = l1 @ b # l2'"
      using earlier_line [of good bad later l1 b l2] by auto
    with rolled_back(2) b show False by blast
  qed
  have stop1: "rows_stepped ?ins \<le> length l1"
    if l: "lines = l1 @ b # l2" and b: "line_fields sep nCol b \<noteq> nCol" for l1 b l2
  proof (cases "length good = length l1")
    case True
    with l rolled_back(1) have "bad = b" by (auto simp: append_eq_append_conv)
    with b stepped True show ?thesis by simp
  next
    case False
    with not_before [OF l] b have "length good < length l1" by fastforce
    with stepped show ?thesis by simp
  qed
  have stop2: "rows_stepped ?ins \<le> Suc (length l1)"
    if l: "lines = l1 @ b # l2"
      and b: "ie_Reset env (calls @ concat (map (line_calls sep nCol) (l1 @ [b]))) \<noteq> SQLITE_OK"
    for l1 b l2
    using not_before [OF l] b stepped by simp
  show ?thesis
  proof (intro exI [of _ ?ins] conjI)
    show "calls' = calls @ ?ins" by (rule r)
    show "\<forall>c\<in>set ?ins. \<not> is_exec c" by (rule noexec)
    from r show "(zc = ''COMMIT'' \<and> (if lines = [] then rc' = rc else rc' = SQLITE_OK)
          \<and> ?ins = concat (map (line_calls sep nCol) lines)
          \<and> rows_stepped ?ins = length lines
          \<and> (\<forall>l\<in>set lines. line_fields sep nCol l = nCol)
          \<and> (\<forall>l1 l l2. lines = l1 @ l # l2 \<longrightarrow>
                ie_Reset env (calls @ concat (map (line_calls sep nCol) (l1 @ [l]))) = SQLITE_OK))
        \<or> (zc = ''ROLLBACK'' \<and> rc' = 1)" by simp
    from r stop1 show "\<forall>l1 bad l2. lines = l1 @ bad # l2 \<and> line_fields sep nCol bad \<noteq> nCol \<longrightarrow>
          zc = ''ROLLBACK'' \<and> rows_stepped ?ins \<le> length l1" by blast
    from r stop2 show "\<forall>l1 bad l2. lines = l1 @ bad # l2
            \<and> ie_Reset env (calls @ concat (map (line_calls sep nCol) (l1 @ [bad]))) \<noteq> SQLITE_OK \<longrightarrow>
          zc = ''ROLLBACK'' \<and> rows_stepped ?ins \<le> Suc (length l1)" by blast
  qed
qed

lemma import_transaction_shape:
  assumes "import_transaction env sep nCol lines calls rc = (rc', calls')"
  shows "\<exists>ins zc. calls' = calls @ [Db_exec ''BEGIN''] @ ins @ [Db_finalize, Db_exec zc]
     \<and> (\<forall>c\<in>set ins. \<not> is_exec c)
     \<and> ((zc = ''COMMIT'' \<and> (if lines = [] then rc' = rc else rc' = SQLITE_OK)
          \<and> ins = concat (map (line_calls sep nCol) lines)
          \<and> rows_stepped ins = length lines
          \<and> (\<forall>l\<in>set lines. line_fields sep nCol l = nCol)
          \<and> (\<forall>l1 l l2. lines = l1 @ l # l2 \<longrightarrow>
                ie_Reset env (calls @ Db_exec ''BEGIN'' # concat (map (line_calls sep nCol) (l1 @ [l])))
                  = SQLITE_OK))
        \<or> (zc = ''ROLLBACK'' \<and> rc' = 1))
     \<and> (\<forall>l1 bad l2. lines = l1 @ bad # l2 \<and> line_fields sep nCol bad \<noteq> nCol \<longrightarrow>
          zc = ''ROLLBACK'' \<and> rows_stepped ins \<le> length l1)
     \<and> (\<forall>l1 bad l2. lines = l1 @ bad # l2
            \<and> ie_Reset env (calls @ Db_exec ''BEGIN'' # concat (map (line_calls sep nCol) (l1 @ [bad])))
                 \<noteq> SQLITE_OK \<longrightarrow>
          zc = ''ROLLBACK'' \<and> rows_stepped ins \<le> Suc (length l1))"
proof -
  from assms obtain zc calls3 where
    run: "import_lines env sep nCol lines (calls @ [Db_exec ''BEGIN'']) rc = (rc', zc, calls3)"
    and calls': "calls' = calls3 @ [Db_finalize, Db_exec zc]"
    by (auto simp: import_transaction_def split: prod.splits)
  from import_lines_facts [OF run] obtain ins where
    ins: "calls3 = (calls @ [Db_exec ''BEGIN'']) @ ins" "\<forall>c\<in>set ins. \<not> is_exec c"
      "(zc = ''COMMIT'' \<and> (if lines = [] then rc' = rc else rc' = SQLITE_OK)
          \<and> ins = concat (map (line_calls sep nCol) lines)
          \<and> rows_stepped ins = length lines
          \<and> (\<forall>l\<in>set lines. line_fields sep nCol l = nCol)
          \<and> (\<forall>l1 l l2. lines = l1 @ l # l2 \<longrightarrow>
                ie_Reset env ((calls @ [Db_exec ''BEGIN''])
                   @ concat (map (line_calls sep nCol) (l1 @ [l]))) = SQLITE_OK))
        \<or> (zc = ''ROLLBACK'' \<and> rc' = 1)"
      "\<forall>l1 bad l2. lines = l1 @ bad # l2 \<and> line_fields sep nCol bad \<noteq> nCol \<longrightarrow>
          zc = ''ROLLBACK'' \<and> rows_stepped ins \<le> length l1"
      "\<forall>l1 bad l2. lines = l1 @ bad # l2
            \<and> ie_Reset env ((calls @ [Db_exec ''BEGIN''])
                 @ concat (map (line_calls sep nCol) (l1 @ [bad]))) \<noteq> SQLITE_OK \<longrightarrow>
          zc = ''ROLLBACK'' \<and> rows_stepped ins \<le> Suc (length l1)"
    by blast
  have norm: "(calls @ [Db_exec ''BEGIN'']) @ xs = calls @ Db_exec ''BEGIN'' # xs" for xs
    by simp
  from calls' ins(1) have shape:
    "calls' = calls @ [Db_exec ''BEGIN''] @ ins @ [Db_finalize, Db_exec zc]" by simp
  from shape ins(2) ins(3,4,5) [unfolded norm] show ?thesis
    by (intro exI [of _ ins] exI [of _ zc] conjI)
qed

lemma meta_import_cases:
  assumes "meta_import env azArg p = Return (rc', p', calls')"
  obtains (early) "rows_stepped calls' = 0" "\<forall>c\<in>set calls'. \<not> is_exec c"
  | (run) lines pre where "ie_fopen env (azArg ! 1) = Some lines"
      "rows_stepped pre = 0" "\<forall>c\<in>set pre. \<not> is_exec c"
      "import_transaction env (separator p') (table_columns env (azArg ! 2)) lines pre 0
         = (rc', calls')"
proof -
  let ?zSql = "''SELECT * FROM '' @ azArg ! 2"
  let ?calls1 = "[Db_prepare ?zSql, Db_finalize]"
  let ?zStart = "sqlite3_snprintf (strlen30 ?zSql + 20) (''INSERT INTO '' @ azArg ! 2 @ '' VALUES(?'')"
  let ?zInsert = "take (nat (strlen30 ?zStart)) ?zStart
                  @ concat (replicate (table_columns env (azArg ! 2) - 1) '',?'') @ '')''"
  let ?calls2 = "?calls1 @ [Db_prepare ?zInsert]"
  have pre: "rows_stepped ?calls2 = 0" "\<forall>c\<in>set ?calls2. \<not> is_exec c"
    by (simp_all add: rows_stepped_def)
  from assms have
    "calls' = [] \<or> calls' = ?calls1 \<or> calls' = ?calls2 @ [Db_finalize]
     \<or> (\<exists>lines. ie_fopen env (azArg ! 1) = Some lines
          \<and> import_transaction env (separator p') (table_columns env (azArg ! 2)) lines ?calls2 0
              = (rc', calls'))"
    unfolding meta_import_def table_columns_def
    by (simp add: Let_def split: outcome.splits if_splits prod.splits option.splits)
  then show ?thesis
  proof (elim disjE exE conjE)
    assume "calls' = []"
    then show ?thesis by (intro early) (simp_all add: rows_stepped_def)
  next
    assume "calls' = ?calls1"
    then show ?thesis by (intro early) (simp_all add: rows_stepped_def)
  next
    assume "calls' = ?calls2 @ [Db_finalize]"
    then show ?thesis by (intro early) (simp_all add: rows_stepped_def)
  next
    fix lines
    assume "ie_fopen env (azArg ! 1) = Some lines"
      "import_transaction env (separator p') (table_columns env (azArg ! 2)) lines ?calls2 0
         = (rc', calls')"
    with pre show ?thesis by (intro run [of lines ?calls2])
  qed
qed

text \<open>
  C1: a run of \<^verbatim>\<open>.import FILE TABLE\<close> that returns either stops before the file is read,
  and then steps no insert and calls \<^verbatim>\<open>sqlite3_exec\<close> not at all, or makes its calls in
  this order: calls that step nothing, \<^verbatim>\<open>BEGIN\<close>, the inserts with no \<^verbatim>\<open>sqlite3_exec\<close>
  among them, the finalize, and one \<^verbatim>\<open>COMMIT\<close> or \<^verbatim>\<open>ROLLBACK\<close>. \<^verbatim>\<open>COMMIT\<close> comes with the
  result 0 and only when every line of the file succeeded: every line has the column
  count of the table, the inserts are the calls of all the lines, one step a line, and
  \<^verbatim>\<open>Reset\<close> answered \<open>SQLITE_OK\<close> after each of them. \<^verbatim>\<open>ROLLBACK\<close> comes with the result 1.
  A line with another column count gives \<^verbatim>\<open>ROLLBACK\<close>, and no line from it on is stepped;
  a line after whose insert \<^verbatim>\<open>Reset\<close> does not answer \<open>SQLITE_OK\<close> gives \<^verbatim>\<open>ROLLBACK\<close>, and no
  line after it is stepped.
\<close>

theorem import_single_transaction:
  assumes "meta_import env azArg p = Return (rc', p', calls')"
  shows "(rows_stepped calls' = 0 \<and> (\<forall>c\<in>set calls'. \<not> is_exec c))
       \<or> (\<exists>lines pre ins zc.
            ie_fopen env (azArg ! 1) = Some lines
          \<and> calls' = pre @ [Db_exec ''BEGIN''] @ ins @ [Db_finalize, Db_exec zc]
          \<and> rows_stepped pre = 0 \<and> (\<forall>c\<in>set pre. \<not> is_exec c) \<and> (\<forall>c\<in>set ins. \<not> is_exec c)
          \<and> ((zc = ''COMMIT'' \<and> rc' = 0
               \<and> (\<forall>l\<in>set lines. line_fields (separator p') (table_columns env (azArg ! 2)) l
                                  = table_columns env (azArg ! 2))
               \<and> rows_stepped ins = length lines
               \<and> ins = concat (map (line_calls (separator p') (table_columns env (azArg ! 2))) lines)
               \<and> (\<forall>l1 l l2. lines = l1 @ l # l2 \<longrightarrow>
                     ie_Reset env (pre @ Db_exec ''BEGIN'' #
                       concat (map (line_calls (separator p') (table_columns env (azArg ! 2)))
                                 (l1 @ [l]))) = SQLITE_OK))
              \<or> (zc = ''ROLLBACK'' \<and> rc' = 1))
          \<and> (\<forall>l1 bad l2.
                lines = l1 @ bad # l2
                \<and> line_fields (separator p') (table_columns env (azArg ! 2)) bad
                    \<noteq> table_columns env (azArg ! 2)
                \<longrightarrow> zc = ''ROLLBACK'' \<and> rc' = 1 \<and> rows_stepped ins \<le> length l1)
          \<and> (\<forall>l1 bad l2.
                lines = l1 @ bad # l2
                \<and> ie_Reset env (pre @ Db_exec ''BEGIN'' #
                     concat (map (line_calls (separator p') (table_columns env (azArg ! 2)))
                               (l1 @ [bad]))) \<noteq> SQLITE_OK
                \<longrightarrow> zc = ''ROLLBACK'' \<and> rc' = 1 \<and> rows_stepped ins \<le> Suc (length l1)))"
proof -
  from assms show ?thesis
  proof (cases rule: meta_import_cases)
    case early
    then show ?thesis by simp
  next
    case (run lines pre)
    let ?n = "table_columns env (azArg ! 2)"
    let ?sep = "separator p'"
    note opened = run(1) and pre = run(2,3) and run = run(4)
    from import_transaction_shape [OF run] obtain ins zc where
      shape: "calls' = pre @ [Db_exec ''BEGIN''] @ ins @ [Db_finalize, Db_exec zc]"
        "\<forall>c\<in>set ins. \<not> is_exec c"
        "(zc = ''COMMIT'' \<and> (if lines = [] then rc' = 0 else rc' = SQLITE_OK)
            \<and> ins = concat (map (line_calls ?sep ?n) lines)
            \<and> rows_stepped ins = length lines
            \<and> (\<forall>l\<in>set lines. line_fields ?sep ?n l = ?n)
            \<and> (\<forall>l1 l l2. lines = l1 @ l # l2 \<longrightarrow>
                  ie_Reset env (pre @ Db_exec ''BEGIN'' # concat (map (line_calls ?sep ?n) (l1 @ [l])))
                    = SQLITE_OK))
         \<or> (zc = ''ROLLBACK'' \<and> rc' = 1)"
        "\<forall>l1 bad l2. lines = l1 @ bad # l2 \<and> line_fields ?sep ?n bad \<noteq> ?n \<longrightarrow>
            zc = ''ROLLBACK'' \<and> rows_stepped ins \<le> length l1"
        "\<forall>l1 bad l2. lines = l1 @ bad # l2
            \<and> ie_Reset env (pre @ Db_exec ''BEGIN'' # concat (map (line_calls ?sep ?n) (l1 @ [bad])))
                 \<noteq> SQLITE_OK \<longrightarrow>
            zc = ''ROLLBACK'' \<and> rows_stepped ins \<le> Suc (length l1)"
      by blast
    have zero: "rc' = 0" if "if lines = [] then rc' = 0 else rc' = SQLITE_OK"
      using that by (simp add: SQLITE_OK_def split: if_splits)
    from shape(3) zero have commit:
      "(zc = ''COMMIT'' \<and> rc' = 0 \<and> (\<forall>l\<in>set lines. line_fields ?sep ?n l = ?n)
          \<and> rows_stepped ins = length lines
          \<and> ins = concat (map (line_calls ?sep ?n) lines)
          \<and> (\<forall>l1 l l2. lines = l1 @ l # l2 \<longrightarrow>
                  ie_Reset env (pre @ Db_exec ''BEGIN'' # concat (map (line_calls ?sep ?n) (l1 @ [l])))
                    = SQLITE_OK))
       \<or> (zc = ''ROLLBACK'' \<and> rc' = 1)"
      by blast
    have one: "rc' = 1" if "zc = ''ROLLBACK''"
      using that commit by auto
    from shape(4) one have stop1:
      "\<forall>l1 bad l2. lines = l1 @ bad # l2 \<and> line_fields ?sep ?n bad \<noteq> ?n \<longrightarrow>
            zc = ''ROLLBACK'' \<and> rc' = 1 \<and> rows_stepped ins \<le> length l1"
      by blast
    from shape(5) one have stop2:
      "\<forall>l1 bad l2. lines = l1 @ bad # l2
            \<and> ie_Reset env (pre @ Db_exec ''BEGIN'' # concat (map (line_calls ?sep ?n) (l1 @ [bad])))
                 \<noteq> SQLITE_OK \<longrightarrow>
            zc = ''ROLLBACK'' \<and> rc' = 1 \<and> rows_stepped ins \<le> Suc (length l1)"
      by blast
    show ?thesis
      apply (rule disjI2)
      apply (rule exI [of _ lines], rule exI [of _ pre], rule exI [of _ ins], rule exI [of _ zc])
      apply (intro conjI)
             apply (rule opened)
            apply (rule shape(1))
           apply (rule pre(1))
          apply (rule pre(2))
         apply (rule shape(2))
        apply (rule commit)
       apply (rule stop1)
      apply (rule stop2)
      done
  qed
qed

theorem import_single_transaction_witness:
  "meta_import
     \<lparr>ie_sqlite3_open = (\<lambda>name. Some 1), ie_mprintf_ok = True, ie_malloc_zSql_ok = True,
      ie_malloc_azCol_ok = True, ie_prepare = (\<lambda>log zSql. (0, 2)),
      ie_fopen = (\<lambda>name. Some [''a,b'', ''c'', ''d,e'']), ie_Reset = (\<lambda>log. 0)\<rparr>
     [''import'', ''f.csv'', ''t''] (main_init\<lparr>separator := '',''\<rparr>)
   = Return (1, main_init\<lparr>db := Some 1, separator := '',''\<rparr>,
       [Db_prepare ''SELECT * FROM t'', Db_finalize, Db_prepare ''INSERT INTO t VALUES(?,?)'',
        Db_exec ''BEGIN'', Db_bind_text 1 ''a'', Db_bind_text 2 ''b'', Db_step, Db_reset,
        Db_finalize, Db_exec ''ROLLBACK''])
   \<and> line_fields '','' 2 ''c'' = 1
   \<and> meta_import
     \<lparr>ie_sqlite3_open = (\<lambda>name. Some 1), ie_mprintf_ok = True, ie_malloc_zSql_ok = True,
      ie_malloc_azCol_ok = True, ie_prepare = (\<lambda>log zSql. (0, 2)),
      ie_fopen = (\<lambda>name. Some [''a,b'', ''c,d'', ''e,f'']),
      ie_Reset = (\<lambda>log. if rows_stepped log = 2 then 19 else 0)\<rparr>
     [''import'', ''f.csv'', ''t''] (main_init\<lparr>separator := '',''\<rparr>)
   = Return (1, main_init\<lparr>db := Some 1, separator := '',''\<rparr>,
       [Db_prepare ''SELECT * FROM t'', Db_finalize, Db_prepare ''INSERT INTO t VALUES(?,?)'',
        Db_exec ''BEGIN'', Db_bind_text 1 ''a'', Db_bind_text 2 ''b'', Db_step, Db_reset,
        Db_bind_text 1 ''c'', Db_bind_text 2 ''d'', Db_step, Db_reset,
        Db_finalize, Db_exec ''ROLLBACK''])
   \<and> (\<exists>pre ins.
         [Db_prepare ''SELECT * FROM t'', Db_finalize, Db_prepare ''INSERT INTO t VALUES(?,?)'',
          Db_exec ''BEGIN'', Db_bind_text 1 ''a'', Db_bind_text 2 ''b'', Db_step, Db_reset,
          Db_bind_text 1 ''c'', Db_bind_text 2 ''d'', Db_step, Db_reset,
          Db_finalize, Db_exec ''ROLLBACK'']
         = pre @ [Db_exec ''BEGIN''] @ ins @ [Db_finalize, Db_exec ''ROLLBACK'']
       \<and> rows_stepped pre = 0 \<and> rows_stepped ins \<le> 2)"
proof -
  let ?E1 = "\<lparr>ie_sqlite3_open = (\<lambda>name. Some 1), ie_mprintf_ok = True, ie_malloc_zSql_ok = True,
      ie_malloc_azCol_ok = True, ie_prepare = (\<lambda>log zSql. (0, 2)),
      ie_fopen = (\<lambda>name. Some [''a,b'', ''c'', ''d,e'']), ie_Reset = (\<lambda>log. 0)\<rparr>"
  let ?E = "\<lparr>ie_sqlite3_open = (\<lambda>name. Some 1), ie_mprintf_ok = True, ie_malloc_zSql_ok = True,
      ie_malloc_azCol_ok = True, ie_prepare = (\<lambda>log zSql. (0, 2)),
      ie_fopen = (\<lambda>name. Some [''a,b'', ''c,d'', ''e,f'']),
      ie_Reset = (\<lambda>log. if rows_stepped log = 2 then 19 else 0)\<rparr>"
  let ?calls = "[Db_prepare ''SELECT * FROM t'', Db_finalize, Db_prepare ''INSERT INTO t VALUES(?,?)'',
        Db_exec ''BEGIN'', Db_bind_text 1 ''a'', Db_bind_text 2 ''b'', Db_step, Db_reset,
        Db_bind_text 1 ''c'', Db_bind_text 2 ''d'', Db_step, Db_reset,
        Db_finalize, Db_exec ''ROLLBACK'']"
  have run1: "meta_import ?E1 [''import'', ''f.csv'', ''t''] (main_init\<lparr>separator := '',''\<rparr>)
     = Return (1, main_init\<lparr>db := Some 1, separator := '',''\<rparr>,
       [Db_prepare ''SELECT * FROM t'', Db_finalize, Db_prepare ''INSERT INTO t VALUES(?,?)'',
        Db_exec ''BEGIN'', Db_bind_text 1 ''a'', Db_bind_text 2 ''b'', Db_step, Db_reset,
        Db_finalize, Db_exec ''ROLLBACK''])"
    by code_simp
  have short: "line_fields '','' 2 ''c'' = 1"
    by code_simp
  have run: "meta_import ?E [''import'', ''f.csv'', ''t''] (main_init\<lparr>separator := '',''\<rparr>)
     = Return (1, main_init\<lparr>db := Some 1, separator := '',''\<rparr>, ?calls)"
    by code_simp
  have cols: "table_columns ?E ([''import'', ''f.csv'', ''t''] ! 2) = 2"
    by (simp add: table_columns_def)
  have sepP: "separator (main_init\<lparr>db := Some 1, separator := '',''\<rparr>) = '',''" by simp
  have stepped: "rows_stepped ?calls \<noteq> 0"
    by (simp add: rows_stepped_def)
  from import_single_transaction [OF run] stepped
  obtain lines pre ins zc where
    opened: "ie_fopen ?E ([''import'', ''f.csv'', ''t''] ! 1) = Some lines"
    and shape: "?calls = pre @ [Db_exec ''BEGIN''] @ ins @ [Db_finalize, Db_exec zc]"
      "rows_stepped pre = 0"
    and stop: "\<forall>l1 bad l2.
        lines = l1 @ bad # l2
        \<and> ie_Reset ?E (pre @ Db_exec ''BEGIN'' #
             concat (map (line_calls (separator (main_init\<lparr>db := Some 1, separator := '',''\<rparr>))
                            (table_columns ?E ([''import'', ''f.csv'', ''t''] ! 2)))
                       (l1 @ [bad]))) \<noteq> SQLITE_OK
        \<longrightarrow> zc = ''ROLLBACK'' \<and> (1::int) = 1 \<and> rows_stepped ins \<le> Suc (length l1)"
    by blast
  from opened have lines: "lines = [''a,b''] @ ''c,d'' # [''e,f'']" by simp
  have two: "rows_stepped (pre @ Db_exec ''BEGIN'' #
      concat (map (line_calls '','' 2) ([''a,b''] @ [''c,d'']))) = 2"
    using shape(2) lines_calls_stepped [of "'',''" 2 "[''a,b''] @ [''c,d'']"]
    by (simp add: rows_stepped_def)
  then have fails: "ie_Reset ?E (pre @ Db_exec ''BEGIN'' #
      concat (map (line_calls '','' 2) ([''a,b''] @ [''c,d'']))) \<noteq> SQLITE_OK"
    by (simp add: SQLITE_OK_def)
  from stop [rule_format, of "[''a,b'']" "''c,d''" "[''e,f'']"] lines fails
  have "zc = ''ROLLBACK'' \<and> rows_stepped ins \<le> Suc (length [''a,b''])"
    unfolding cols sepP by simp
  with shape have "?calls = pre @ [Db_exec ''BEGIN''] @ ins @ [Db_finalize, Db_exec ''ROLLBACK'']
       \<and> rows_stepped pre = 0 \<and> rows_stepped ins \<le> 2"
    by simp
  then have "\<exists>pre ins. ?calls = pre @ [Db_exec ''BEGIN''] @ ins @ [Db_finalize, Db_exec ''ROLLBACK'']
       \<and> rows_stepped pre = 0 \<and> rows_stepped ins \<le> 2"
    by blast
  with run1 short run show ?thesis by (intro conjI)
qed


end
